theory Spec2Isabelle
  imports Complex_Main "HOL-Library.Log_Nat"
begin

section \<open>Strings of the JavaScript runtime\<close>

text \<open>
  Source strings are modelled as \<^typ>\<open>string\<close>: one \<^typ>\<open>char\<close> per code unit.
  Case mapping is the ASCII one (\<open>A\<close>..\<open>Z\<close> to \<open>a\<close>..\<open>z\<close>), every other
  character is left alone.
\<close>

definition upperChars :: string where
  "upperChars = ''ABCDEFGHIJKLMNOPQRSTUVWXYZ''"

definition lowerChars :: string where
  "lowerChars = ''abcdefghijklmnopqrstuvwxyz''"

definition isUpper :: "char \<Rightarrow> bool" where
  "isUpper c = (c \<in> set upperChars)"

definition toLowerChar :: "char \<Rightarrow> char" where
  "toLowerChar c = (case map_of (zip upperChars lowerChars) c of Some d \<Rightarrow> d | None \<Rightarrow> c)"

text \<open>\<open>String.prototype.toLowerCase\<close>.\<close>

definition toLowerCase :: "string \<Rightarrow> string" where
  "toLowerCase s = map toLowerChar s"

text \<open>\<open>String.prototype.startsWith\<close>.\<close>

definition startsWith :: "string \<Rightarrow> string \<Rightarrow> bool" where
  "startsWith s p = (take (length p) s = p)"

text \<open>\<open>String.prototype.includes\<close>: \<open>t\<close> occurs in \<open>s\<close> at some position.\<close>

fun str_includes :: "string \<Rightarrow> string \<Rightarrow> bool" where
  "str_includes [] t = (t = [])"
| "str_includes (c # cs) t = (startsWith (c # cs) t \<or> str_includes cs t)"

text \<open>
  \<open>s.replace(/^-(?:webkit-|moz-|ms-|o-)/, '')\<close>: the alternatives are tried in the
  order of the pattern, anchored at the start of the string.
\<close>

definition stripVendorPrefix :: "string \<Rightarrow> string" where
  "stripVendorPrefix s =
     (if startsWith s ''-webkit-'' then drop (length ''-webkit-'') s
      else if startsWith s ''-moz-'' then drop (length ''-moz-'') s
      else if startsWith s ''-ms-'' then drop (length ''-ms-'') s
      else if startsWith s ''-o-'' then drop (length ''-o-'') s
      else s)"

text \<open>\<open>s.replace(/([A-Z])/g, '-$1')\<close>: a hyphen goes before every upper-case letter.\<close>

definition hyphenateUpper :: "string \<Rightarrow> string" where
  "hyphenateUpper s = concat (map (\<lambda>c. if isUpper c then [CHR ''-'', c] else [c]) s)"


section \<open>The feature registry (BaselineChecker.ts)\<close>

subsection \<open>Data\<close>

text \<open>
  A record of the \<open>web-features\<close> dataset, as far as the checker reads it. Every field
  may be missing. \<open>status.baseline\<close> is \<open>'high'\<close>, \<open>'low'\<close> or \<open>false\<close>; the value
  \<open>None\<close> stands for a value that is not a string. \<open>status.support\<close> maps browser keys
  to version strings.
\<close>

record feature_status =
  status_baseline :: "string option"
  support :: "(string \<times> string) list option"

record feature =
  name :: "string option"
  status :: "feature_status option"
  compat_features :: "string list option"

datatype tier = WidelyAvailable | NewlyAvailable | Limited

text \<open>\<open>BaselineConfig\<close> (types/index.ts). The target is kept as the string it is at run time:
  \<open>evaluateCriteria\<close> has a default branch for any other value.\<close>

record BaselineConfig =
  target :: string
  config_browsers :: "string list"
  exceptions :: "string list"
  ignoreFiles :: "string list"
  generateFixes :: bool
  reportFormat :: string

text \<open>
  \<open>Map<string, any>\<close>: an insertion-ordered association list with distinct keys.
  \<open>set\<close> on a key that is present replaces the value and keeps the position;
  on a new key it appends.
\<close>

type_synonym featureMap = "(string \<times> feature) list"

fun map_set :: "string \<Rightarrow> feature \<Rightarrow> featureMap \<Rightarrow> featureMap" where
  "map_set k v [] = [(k, v)]"
| "map_set k v ((k', v') # m) = (if k' = k then (k, v) # m else (k', v') # map_set k v m)"

definition map_has :: "featureMap \<Rightarrow> string \<Rightarrow> bool" where
  "map_has m k = (map_of m k \<noteq> None)"

definition map_get :: "featureMap \<Rightarrow> string \<Rightarrow> feature option" where
  "map_get m k = map_of m k"

record BaselineChecker =
  config :: BaselineConfig
  featureMap :: featureMap

text \<open>The object \<open>checkFeature\<close> returns. \<open>browsers\<close> lists the keys of the object
  literal in order; \<open>{}\<close> is the empty list.\<close>

record check_result =
  baseline :: "tier option"
  browsers :: "(string \<times> string option) list"
  meetsCriteria :: bool
  suggestion :: "string option"

subsection \<open>Construction\<close>

definition mappings :: "(string \<times> string list) list" where
  "mappings =
    [(''flexbox'', [''flex'', ''flexbox'', ''css-flexbox'']),
     (''css-grid'', [''grid'', ''css-grid'', ''grid-template-columns'']),
     (''container-queries'', [''container-queries'', ''@container'']),
     (''custom-properties'', [''css-variables'', ''css-custom-properties'', ''--'']),
     (''fetch'', [''fetch'', ''fetch-api'']),
     (''promises'', [''promise'', ''promises'']),
     (''async-functions'', [''async'', ''async-await'']),
     (''arrow-functions'', [''arrow-functions'', ''=>'']),
     (''template-literals'', [''template-literals'', ''template-strings'']),
     (''destructuring-assignment'', [''destructuring'']),
     (''spread-syntax'', [''spread-operator'', ''...'']),
     (''optional-chaining'', [''?.'']),
     (''nullish-coalescing'', [''??''])]"

definition addCommonMappings :: "string \<Rightarrow> feature \<Rightarrow> featureMap \<Rightarrow> featureMap" where
  "addCommonMappings ident f m =
     (case map_of mappings ident of
        None \<Rightarrow> m
      | Some aliases \<Rightarrow> foldl (\<lambda>acc alias. map_set alias f acc) m aliases)"

text \<open>A string is truthy when it is present and not empty.\<close>

definition truthy :: "string option \<Rightarrow> bool" where
  "truthy s = (case s of None \<Rightarrow> False | Some t \<Rightarrow> t \<noteq> [])"

text \<open>The body of \<open>f.compat_features.forEach\<close>. Under the guard \<open>startsWith\<close> the first
  occurrence of \<open>'css.properties.'\<close> that \<open>replace\<close> removes is the prefix.\<close>

definition addCompat :: "feature \<Rightarrow> featureMap \<Rightarrow> string \<Rightarrow> featureMap" where
  "addCompat f m compatKey =
     (let m1 = map_set compatKey f m in
      if startsWith compatKey ''css.properties.''
      then map_set (drop (length ''css.properties.'') compatKey) f m1
      else m1)"

text \<open>The body of \<open>Object.entries(features).forEach\<close>.\<close>

definition addFeatureEntry :: "featureMap \<Rightarrow> string \<times> feature \<Rightarrow> featureMap" where
  "addFeatureEntry m e =
     (case e of (ident, f) \<Rightarrow>
        let m1 = map_set ident f m;
            m2 = (if truthy (name f) then map_set (toLowerCase (the (name f))) f m1 else m1);
            m3 = (case compat_features f of
                    None \<Rightarrow> m2
                  | Some cs \<Rightarrow> foldl (addCompat f) m2 cs)
        in addCommonMappings ident f m3)"

definition initializeFeatureMap :: "(string \<times> feature) list \<Rightarrow> featureMap" where
  "initializeFeatureMap features = foldl addFeatureEntry [] features"

text \<open>The constructor; \<open>features\<close> is the dataset the module imports.\<close>

definition newBaselineChecker :: "(string \<times> feature) list \<Rightarrow> BaselineConfig \<Rightarrow> BaselineChecker" where
  "newBaselineChecker features cfg =
     \<lparr>config = cfg, featureMap = initializeFeatureMap features\<rparr>"

subsection \<open>Lookup\<close>

definition generateCssVariations :: "string \<Rightarrow> string list" where
  "generateCssVariations property =
     (let withoutPrefix = stripVendorPrefix property;
          variations = [property] @ (if withoutPrefix \<noteq> property then [withoutPrefix] else []);
          kebab = toLowerCase (hyphenateUpper property)
      in variations @ [kebab] @ [''css-'' @ withoutPrefix] @ [''css.properties.'' @ withoutPrefix])"

text \<open>The loop of \<open>fuzzySearch\<close> over the entries of the map, in insertion order.\<close>

fun fuzzyLoop :: "string \<Rightarrow> featureMap \<Rightarrow> feature option" where
  "fuzzyLoop queryLower [] = None"
| "fuzzyLoop queryLower ((key, f) # rest) =
     (if str_includes key queryLower \<or>
         (truthy (name f) \<and> str_includes (toLowerCase (the (name f))) queryLower)
      then Some f
      else fuzzyLoop queryLower rest)"

definition fuzzySearch :: "featureMap \<Rightarrow> string \<Rightarrow> feature option" where
  "fuzzySearch m query = fuzzyLoop (toLowerCase query) m"

text \<open>The loop over the CSS variations: the first variation that is a key wins.\<close>

fun firstVariation :: "featureMap \<Rightarrow> string list \<Rightarrow> feature option" where
  "firstVariation m [] = None"
| "firstVariation m (v # vs) = (if map_has m v then map_get m v else firstVariation m vs)"

definition findFeature :: "featureMap \<Rightarrow> string \<Rightarrow> feature option" where
  "findFeature m query =
     (if map_has m query then map_get m query
      else if map_has m (toLowerCase query) then map_get m (toLowerCase query)
      else (case firstVariation m (generateCssVariations query) of
              Some f \<Rightarrow> Some f
            | None \<Rightarrow> fuzzySearch m query))"

subsection \<open>Classification\<close>

definition getBaselineStatus :: "feature_status \<Rightarrow> tier" where
  "getBaselineStatus st =
     (if status_baseline st = Some ''high'' then WidelyAvailable
      else if status_baseline st = Some ''low'' then NewlyAvailable
      else Limited)"

text \<open>\<open>status.support?.chrome\<close>: undefined when \<open>support\<close> or the key is missing.\<close>

definition supportOf :: "feature_status \<Rightarrow> string \<Rightarrow> string option" where
  "supportOf st k = (case support st of None \<Rightarrow> None | Some tbl \<Rightarrow> map_of tbl k)"

definition getBrowserSupport :: "feature_status \<Rightarrow> (string \<times> string option) list" where
  "getBrowserSupport st =
     [(''chrome'', supportOf st ''chrome''),
      (''firefox'', supportOf st ''firefox''),
      (''safari'', supportOf st ''safari''),
      (''edge'', supportOf st ''edge''),
      (''chrome_android'', supportOf st ''chrome_android''),
      (''firefox_android'', supportOf st ''firefox_android''),
      (''safari_ios'', supportOf st ''safari_ios'')]"

definition evaluateCriteria :: "BaselineConfig \<Rightarrow> tier \<Rightarrow> bool" where
  "evaluateCriteria cfg b =
     (let isException = (length (exceptions cfg) > 0) in
      if target cfg = ''widely-available'' then b = WidelyAvailable
      else if target cfg = ''newly-available'' then b = WidelyAvailable \<or> b = NewlyAvailable
      else if target cfg = ''limited'' then True
      else False)"

definition generateSuggestion :: "BaselineConfig \<Rightarrow> feature \<Rightarrow> tier \<Rightarrow> string option" where
  "generateSuggestion cfg f b =
     (if b = Limited
      then Some ''Consider using a polyfill or waiting for broader browser support. Check caniuse.com for alternatives.''
      else if b = NewlyAvailable \<and> target cfg = ''widely-available''
      then Some ''Feature is newly available in Baseline. Consider progressive enhancement or polyfills for older browsers.''
      else None)"

definition notFound :: "string \<Rightarrow> check_result" where
  "notFound featureId =
     \<lparr>baseline = None, browsers = [], meetsCriteria = False,
      suggestion = Some (''Feature \"'' @ featureId @ ''\" not found in web-features database'')\<rparr>"

definition checkFeature :: "BaselineChecker \<Rightarrow> string \<Rightarrow> check_result" where
  "checkFeature chk featureId =
     (case findFeature (featureMap chk) featureId of
        None \<Rightarrow> notFound featureId
      | Some f \<Rightarrow>
          (case status f of
             None \<Rightarrow> notFound featureId
           | Some st \<Rightarrow>
               \<lparr>baseline = Some (getBaselineStatus st),
                browsers = getBrowserSupport st,
                meetsCriteria = evaluateCriteria (config chk) (getBaselineStatus st),
                suggestion = generateSuggestion (config chk) f (getBaselineStatus st)\<rparr>))"



section \<open>Regular expressions of the JavaScript runtime\<close>

text \<open>
  The fragment of \<open>RegExp\<close> the analyzers use: a pattern is a list of alternatives, an
  alternative a sequence of literals and of character classes, the classes single, starred
  or plussed. Matching is greedy with backtracking, as in the runtime; the result lists the
  text each element of the sequence consumed, from which the capture groups are read.
\<close>

datatype cclass = Space | Chars string | NotChars string

datatype rx = Lit string | One cclass | Star cclass | Plus cclass

type_synonym pattern = "rx list list"

definition spaceChars :: string where
  "spaceChars = [CHR 0x09, CHR 0x0A, CHR 0x0B, CHR 0x0C, CHR 0x0D, CHR 0x20, CHR 0xA0]"

definition isSpace :: "char \<Rightarrow> bool" where
  "isSpace c = (c \<in> set spaceChars)"

fun in_class :: "cclass \<Rightarrow> char \<Rightarrow> bool" where
  "in_class Space c = isSpace c"
| "in_class (Chars cs) c = (c \<in> set cs)"
| "in_class (NotChars cs) c = (c \<notin> set cs)"

fun match_seq :: "rx list \<Rightarrow> string \<Rightarrow> string list option" where
  "match_seq [] s = Some []"
| "match_seq (Lit l # rs) s =
     (if startsWith s l
      then (case match_seq rs (drop (length l) s) of
              None \<Rightarrow> None
            | Some ps \<Rightarrow> Some (l # ps))
      else None)"
| "match_seq (One c # rs) s =
     (case s of
        [] \<Rightarrow> None
      | x # xs \<Rightarrow>
          (if in_class c x
           then (case match_seq rs xs of None \<Rightarrow> None | Some ps \<Rightarrow> Some ([x] # ps))
           else None))"
| "match_seq (Star c # rs) s =
     (case s of
        [] \<Rightarrow> (case match_seq rs [] of None \<Rightarrow> None | Some ps \<Rightarrow> Some ([] # ps))
      | x # xs \<Rightarrow>
          (if in_class c x
           then (case match_seq (Star c # rs) xs of
                   Some (p # ps) \<Rightarrow> Some ((x # p) # ps)
                 | _ \<Rightarrow> (case match_seq rs (x # xs) of
                           None \<Rightarrow> None
                         | Some ps \<Rightarrow> Some ([] # ps)))
           else (case match_seq rs (x # xs) of
                   None \<Rightarrow> None
                 | Some ps \<Rightarrow> Some ([] # ps))))"
| "match_seq (Plus c # rs) s =
     (case s of
        [] \<Rightarrow> None
      | x # xs \<Rightarrow>
          (if in_class c x
           then (case match_seq (Star c # rs) xs of
                   Some (p # ps) \<Rightarrow> Some ((x # p) # ps)
                 | _ \<Rightarrow> None)
           else None))"

text \<open>The first alternative that matches at the start of \<open>s\<close>.\<close>

fun exec_at :: "pattern \<Rightarrow> string \<Rightarrow> string list option" where
  "exec_at [] s = None"
| "exec_at (alt # alts) s =
     (case match_seq alt s of Some ps \<Rightarrow> Some ps | None \<Rightarrow> exec_at alts s)"

text \<open>\<open>pattern.test(s)\<close>: a match at some position of \<open>s\<close>, the end included.\<close>

fun regex_test :: "pattern \<Rightarrow> string \<Rightarrow> bool" where
  "regex_test p [] = (exec_at p [] \<noteq> None)"
| "regex_test p (c # cs) = (exec_at p (c # cs) \<noteq> None \<or> regex_test p cs)"

text \<open>
  The loop \<open>while ((match = regex.exec(s)) !== null)\<close> of a global pattern: the leftmost
  match from the current position, then on from the end of that match. \<open>skip\<close> counts the
  characters of the last match still to pass. The three patterns run this way each need at
  least one character, so a match is never empty and never at the end of the text.
\<close>

fun exec_loop :: "pattern \<Rightarrow> nat \<Rightarrow> string \<Rightarrow> string list list" where
  "exec_loop p skip [] = []"
| "exec_loop p skip (c # cs) =
     (if skip > 0 then exec_loop p (skip - 1) cs
      else (case exec_at p (c # cs) of
              None \<Rightarrow> exec_loop p 0 cs
            | Some ps \<Rightarrow> ps # exec_loop p (length (concat ps) - 1) cs))"

definition exec_all :: "pattern \<Rightarrow> string \<Rightarrow> string list list" where
  "exec_all p s = exec_loop p 0 s"

definition digitChars :: string where
  "digitChars = ''0123456789''"

definition alphaChars :: string where
  "alphaChars = lowerChars @ upperChars"

text \<open>\<open>[a-zA-Z_$]\<close> and \<open>[a-zA-Z0-9_$]\<close>.\<close>

definition identStart :: cclass where
  "identStart = Chars (alphaChars @ ''_$'')"

definition identPart :: cclass where
  "identPart = Chars (alphaChars @ digitChars @ ''_$'')"

text \<open>\<open>String.prototype.trim\<close> and \<open>split\<close> on a one-character separator.\<close>

definition trim :: "string \<Rightarrow> string" where
  "trim s = rev (dropWhile isSpace (rev (dropWhile isSpace s)))"

fun splitOn :: "char \<Rightarrow> string \<Rightarrow> string list" where
  "splitOn d [] = [[]]"
| "splitOn d (c # cs) =
     (if c = d then [] # splitOn d cs
      else (case splitOn d cs of
              [] \<Rightarrow> [[c]]
            | l # ls \<Rightarrow> (c # l) # ls))"


section \<open>Usage records (types/index.ts)\<close>

datatype severity = Error | Warning | Info

text \<open>
  \<open>FeatureUsage\<close>. The fields \<open>file\<close>, \<open>context\<close>, \<open>baseline\<close>, \<open>browsers\<close> and \<open>suggestion\<close>
  carry the prefix \<open>usage_\<close> here, to keep them apart from the fields of the checker's
  result.
\<close>

record FeatureUsage =
  feature :: string
  featureId :: string
  usage_file :: string
  line :: nat
  column :: nat
  usage_context :: string
  usage_baseline :: "tier option"
  usage_browsers :: "(string \<times> string option) list"
  severity :: severity
  usage_suggestion :: "string option"
  polyfill :: "string option"
  alternative :: "string option"

datatype file_type = CssFile | JavascriptFile | HtmlFile | TypescriptFile | JsxFile | TsxFile

record FileAnalysis =
  fa_file :: string
  fa_type :: file_type
  fa_features :: "FeatureUsage list"


section \<open>The line-based script extractor (SimpleJavaScriptAnalyzer)\<close>

definition js_determineSeverity :: "tier \<Rightarrow> bool \<Rightarrow> severity" where
  "js_determineSeverity b meets =
     (if \<not> meets then (if b = Limited then Error else Warning) else Info)"

definition js_polyfills :: "(string \<times> string) list" where
  "js_polyfills =
    [(''fetch'', ''whatwg-fetch polyfill''),
     (''promises'', ''es6-promise polyfill''),
     (''array-includes'', ''core-js polyfill''),
     (''object-assign'', ''object-assign polyfill''),
     (''symbol'', ''es6-symbol polyfill''),
     (''map'', ''es6-map polyfill''),
     (''set'', ''es6-set polyfill''),
     (''intersectionobserver'', ''intersection-observer polyfill''),
     (''resizeobserver'', ''resize-observer-polyfill''),
     (''web-audio-api'', ''web-audio-api polyfill'')]"

definition js_getPolyfillSuggestion :: "string \<Rightarrow> string option" where
  "js_getPolyfillSuggestion fid = map_of js_polyfills fid"

definition js_alternatives :: "(string \<times> string) list" where
  "js_alternatives =
    [(''fetch'', ''Use XMLHttpRequest or axios library''),
     (''promises'', ''Use callback patterns or async libraries''),
     (''arrow-functions'', ''Use regular function expressions''),
     (''template-literals'', ''Use string concatenation''),
     (''optional-chaining'', ''Use manual null checking''),
     (''nullish-coalescing'', ''Use || operator with careful null checks'')]"

definition js_getAlternativeSuggestion :: "string \<Rightarrow> string option" where
  "js_getAlternativeSuggestion fid = map_of js_alternatives fid"

text \<open>\<open>addFeature\<close>: the list \<open>features\<close> is passed in and returned, a push appends.\<close>

definition addFeature ::
  "BaselineChecker \<Rightarrow> string \<Rightarrow> string \<Rightarrow> nat \<Rightarrow> string \<Rightarrow> FeatureUsage list \<Rightarrow> string
     \<Rightarrow> FeatureUsage list" where
  "addFeature chk fid ctx lineNumber filePath features description =
     (let result = checkFeature chk fid in
      case baseline result of
        None \<Rightarrow> features
      | Some b \<Rightarrow>
          features @
          [\<lparr>feature = fid, featureId = fid, usage_file = filePath, line = lineNumber, column = 0,
            usage_context = take 100 (trim ctx),
            usage_baseline = Some b,
            usage_browsers = browsers result,
            severity = js_determineSeverity b (meetsCriteria result),
            usage_suggestion = suggestion result,
            polyfill = js_getPolyfillSuggestion fid,
            alternative = js_getAlternativeSuggestion fid\<rparr>])"

text \<open>The tables of \<open>analyzeLineForFeatures\<close>: pattern, feature token, description.\<close>

definition syntaxPatterns :: "(pattern \<times> string \<times> string) list" where
  "syntaxPatterns =
    [([[Lit ''=>'', Star Space]], ''arrow-functions'', ''Arrow function syntax''),
     ([[Lit ''`'', Star (NotChars ''`''), Lit ''${'', Star (NotChars ''}''), Lit ''}'',
        Star (NotChars ''`''), Lit ''`'']],
      ''template-literals'', ''Template literal with interpolation''),
     ([[Lit ''...'', One identStart, Star identPart]], ''spread-syntax'', ''Spread operator''),
     ([[Lit ''async'', Plus Space, Lit ''function'']], ''async-functions'',
      ''Async function declaration''),
     ([[Lit ''await'', Plus Space]], ''async-await'', ''Await expression''),
     ([[Lit ''??'']], ''nullish-coalescing'', ''Nullish coalescing operator''),
     ([[Lit ''?.'']], ''optional-chaining'', ''Optional chaining operator''),
     ([[Lit ''class'', Plus Space, One identStart, Star identPart]], ''es6-class'',
      ''ES6 class declaration''),
     ([[Lit ''**'']], ''exponentiation-operator'', ''Exponentiation operator'')]"

definition apiPatterns :: "(pattern \<times> string \<times> string) list" where
  "apiPatterns =
    [([[Lit ''fetch'', Star Space, Lit ''('']], ''fetch'', ''Fetch API''),
     ([[Lit ''new'', Plus Space, Lit ''Promise'', Star Space, Lit ''('']], ''promises'',
      ''Promise constructor''),
     ([[Lit ''navigator.serviceWorker'']], ''serviceworker'', ''Service Worker API''),
     ([[Lit ''navigator.geolocation'']], ''geolocation'', ''Geolocation API''),
     ([[Lit ''navigator.share'']], ''web-share'', ''Web Share API''),
     ([[Lit ''navigator.clipboard'']], ''clipboard-api'', ''Clipboard API''),
     ([[Lit ''localStorage.''], [Lit ''sessionStorage.'']], ''webstorage'', ''Web Storage API''),
     ([[Lit ''new'', Plus Space, Lit ''IntersectionObserver'']], ''intersectionobserver'',
      ''Intersection Observer API''),
     ([[Lit ''new'', Plus Space, Lit ''ResizeObserver'']], ''resizeobserver'',
      ''Resize Observer API''),
     ([[Lit ''new'', Plus Space, Lit ''MutationObserver'']], ''mutationobserver'',
      ''Mutation Observer API''),
     ([[Lit ''new'', Plus Space, Lit ''AbortController'']], ''abortcontroller'',
      ''AbortController API''),
     ([[Lit ''new'', Plus Space, Lit ''Map'', Star Space, Lit ''('']], ''map'', ''Map constructor''),
     ([[Lit ''new'', Plus Space, Lit ''Set'', Star Space, Lit ''('']], ''set'', ''Set constructor''),
     ([[Lit ''new'', Plus Space, Lit ''WeakMap'']], ''weakmap'', ''WeakMap constructor''),
     ([[Lit ''new'', Plus Space, Lit ''WeakSet'']], ''weakset'', ''WeakSet constructor''),
     ([[Lit ''Symbol'', Star Space, Lit ''('']], ''symbol'', ''Symbol constructor''),
     ([[Lit ''new'', Plus Space, Lit ''Proxy'']], ''proxy'', ''Proxy constructor''),
     ([[Lit ''requestAnimationFrame'', Star Space, Lit ''('']], ''requestanimationframe'',
      ''Request Animation Frame''),
     ([[Lit ''new'', Plus Space, Lit ''URL'', Star Space, Lit ''('']], ''url'', ''URL constructor''),
     ([[Lit ''new'', Plus Space, Lit ''URLSearchParams'']], ''url-api'', ''URL Search Params''),
     ([[Lit ''new'', Plus Space, Lit ''FormData'']], ''formdata'', ''FormData constructor''),
     ([[Lit ''new'', Plus Space, Lit ''Blob'']], ''blob'', ''Blob constructor''),
     ([[Lit ''new'', Plus Space, Lit ''FileReader'']], ''filereader'', ''FileReader constructor''),
     ([[Lit ''new'', Plus Space, Lit ''Worker'']], ''web-workers'', ''Web Workers''),
     ([[Lit ''new'', Plus Space, Lit ''WebSocket'']], ''websockets'', ''WebSocket constructor''),
     ([[Lit ''new'', Plus Space, Lit ''EventSource'']], ''eventsource'',
      ''EventSource constructor''),
     ([[Lit ''new'', Plus Space, Lit ''XMLHttpRequest'']], ''xhr'', ''XMLHttpRequest constructor'')]"

definition arrayMethods :: "string list" where
  "arrayMethods =
    [''find'', ''findIndex'', ''includes'', ''entries'', ''keys'', ''values'',
     ''map'', ''filter'', ''reduce'', ''forEach'', ''some'', ''every'',
     ''flat'', ''flatMap'', ''from'', ''of'']"

definition stringMethods :: "string list" where
  "stringMethods =
    [''startsWith'', ''endsWith'', ''includes'', ''repeat'', ''padStart'', ''padEnd'',
     ''trim'', ''trimStart'', ''trimEnd'', ''replaceAll'']"

definition objectMethods :: "string list" where
  "objectMethods =
    [''assign'', ''keys'', ''values'', ''entries'', ''fromEntries'',
     ''getOwnPropertyDescriptors'', ''hasOwn'']"

text \<open>\<open>new RegExp(`\\.${method}\\s*\\(`)\<close> and \<open>new RegExp(`Object\\.${method}\\s*\\(`)\<close>.\<close>

definition methodPattern :: "string \<Rightarrow> pattern" where
  "methodPattern method = [[Lit ''.'', Lit method, Star Space, Lit ''('']]"

definition objectMethodPattern :: "string \<Rightarrow> pattern" where
  "objectMethodPattern method = [[Lit ''Object.'', Lit method, Star Space, Lit ''('']]"

text \<open>The bodies of the five \<open>forEach\<close> loops, each from the list so far to the list after.\<close>

definition arrayStep ::
  "BaselineChecker \<Rightarrow> string \<Rightarrow> nat \<Rightarrow> string \<Rightarrow> FeatureUsage list \<Rightarrow> string \<Rightarrow> FeatureUsage list" where
  "arrayStep chk lineText lineNumber filePath features method =
     (if regex_test (methodPattern method) lineText
      then addFeature chk (''array-'' @ method) lineText lineNumber filePath features
             (''Array.'' @ method @ '' method'')
      else features)"

definition stringStep ::
  "BaselineChecker \<Rightarrow> string \<Rightarrow> nat \<Rightarrow> string \<Rightarrow> FeatureUsage list \<Rightarrow> string \<Rightarrow> FeatureUsage list" where
  "stringStep chk lineText lineNumber filePath features method =
     (if regex_test (methodPattern method) lineText
      then addFeature chk (''string-'' @ method) lineText lineNumber filePath features
             (''String.'' @ method @ '' method'')
      else features)"

definition objectStep ::
  "BaselineChecker \<Rightarrow> string \<Rightarrow> nat \<Rightarrow> string \<Rightarrow> FeatureUsage list \<Rightarrow> string \<Rightarrow> FeatureUsage list" where
  "objectStep chk lineText lineNumber filePath features method =
     (if regex_test (objectMethodPattern method) lineText
      then addFeature chk (''object-'' @ method) lineText lineNumber filePath features
             (''Object.'' @ method @ '' method'')
      else features)"

definition patternStep ::
  "BaselineChecker \<Rightarrow> string \<Rightarrow> nat \<Rightarrow> string \<Rightarrow> FeatureUsage list
     \<Rightarrow> pattern \<times> string \<times> string \<Rightarrow> FeatureUsage list" where
  "patternStep chk lineText lineNumber filePath features entry =
     (case entry of (pat, feat, description) \<Rightarrow>
        if regex_test pat lineText
        then addFeature chk feat lineText lineNumber filePath features description
        else features)"

definition analyzeLineForFeatures ::
  "BaselineChecker \<Rightarrow> string \<Rightarrow> nat \<Rightarrow> string \<Rightarrow> FeatureUsage list \<Rightarrow> FeatureUsage list" where
  "analyzeLineForFeatures chk lineText lineNumber filePath features =
     (let f1 = foldl (arrayStep chk lineText lineNumber filePath) features arrayMethods;
          f2 = foldl (stringStep chk lineText lineNumber filePath) f1 stringMethods;
          f3 = foldl (objectStep chk lineText lineNumber filePath) f2 objectMethods;
          f4 = foldl (patternStep chk lineText lineNumber filePath) f3 syntaxPatterns
      in foldl (patternStep chk lineText lineNumber filePath) f4 apiPatterns)"

definition getFileType :: "string \<Rightarrow> file_type" where
  "getFileType filePath =
     (let ext = toLowerCase (last (splitOn (CHR ''.'') filePath)) in
      if ext = ''ts'' then TypescriptFile
      else if ext = ''tsx'' then TsxFile
      else if ext = ''jsx'' then JsxFile
      else JavascriptFile)"

text \<open>The loop of \<open>analyze\<close> over the lines, \<open>lineIndex\<close> counting from 0.\<close>

fun js_lines ::
  "BaselineChecker \<Rightarrow> string \<Rightarrow> nat \<Rightarrow> string list \<Rightarrow> FeatureUsage list \<Rightarrow> FeatureUsage list" where
  "js_lines chk filePath lineIndex [] features = features"
| "js_lines chk filePath lineIndex (lineText # rest) features =
     js_lines chk filePath (lineIndex + 1) rest
       (analyzeLineForFeatures chk lineText (lineIndex + 1) filePath features)"

definition js_analyze :: "BaselineChecker \<Rightarrow> string \<Rightarrow> string \<Rightarrow> FileAnalysis" where
  "js_analyze chk content filePath =
     \<lparr>fa_file = filePath, fa_type = getFileType filePath,
      fa_features = js_lines chk filePath 0 (splitOn (CHR 0x0A) content) []\<rparr>"


section \<open>The stylesheet extractor (CSSAnalyzer)\<close>

subsection \<open>The parsers it calls\<close>

text \<open>
  The rule tree of the stylesheet parser. Every node carries the start of its source range
  (line and column, when known) and the text its \<open>toString()\<close> gives; a declaration has
  \<open>prop\<close> and \<open>value\<close>, a rule \<open>selector\<close> and children, an at-rule \<open>name\<close>,
  \<open>params\<close> and children.
\<close>

datatype css_node =
    Declaration "(nat \<times> nat) option" string string string
  | Rule "(nat \<times> nat) option" string string "css_node list"
  | AtRule "(nat \<times> nat) option" string string string "css_node list"
  | Comment "(nat \<times> nat) option" string

datatype css_error = CssSyntaxError string

fun node_source :: "css_node \<Rightarrow> (nat \<times> nat) option" where
  "node_source (Declaration src txt p v) = src"
| "node_source (Rule src txt sel ns) = src"
| "node_source (AtRule src txt n ps ns) = src"
| "node_source (Comment src txt) = src"

fun node_text :: "css_node \<Rightarrow> string" where
  "node_text (Declaration src txt p v) = txt"
| "node_text (Rule src txt sel ns) = txt"
| "node_text (AtRule src txt n ps ns) = txt"
| "node_text (Comment src txt) = txt"

text \<open>A field a node does not have reads \<open>undefined\<close>, which a template literal prints.\<close>

fun node_prop :: "css_node \<Rightarrow> string" where
  "node_prop (Declaration src txt p v) = p"
| "node_prop _ = ''undefined''"

fun node_value :: "css_node \<Rightarrow> string" where
  "node_value (Declaration src txt p v) = v"
| "node_value _ = ''undefined''"

fun node_selector :: "css_node \<Rightarrow> string" where
  "node_selector (Rule src txt sel ns) = sel"
| "node_selector _ = ''undefined''"

fun node_name :: "css_node \<Rightarrow> string" where
  "node_name (AtRule src txt n ps ns) = n"
| "node_name _ = ''undefined''"

fun node_params :: "css_node \<Rightarrow> string" where
  "node_params (AtRule src txt n ps ns) = ps"
| "node_params _ = ''undefined''"

text \<open>\<open>node.source?.start?.line || 0\<close> and the same for the column.\<close>

definition node_line :: "css_node \<Rightarrow> nat" where
  "node_line n = (case node_source n of None \<Rightarrow> 0 | Some (l, c) \<Rightarrow> l)"

definition node_column :: "css_node \<Rightarrow> nat" where
  "node_column n = (case node_source n of None \<Rightarrow> 0 | Some (l, c) \<Rightarrow> c)"

text \<open>\<open>Container.walk\<close>: every descendant, a node before its children.\<close>

fun walk :: "css_node \<Rightarrow> css_node list" where
  "walk (Declaration src txt p v) = [Declaration src txt p v]"
| "walk (Rule src txt sel ns) = Rule src txt sel ns # concat (map walk ns)"
| "walk (AtRule src txt n ps ns) = AtRule src txt n ps ns # concat (map walk ns)"
| "walk (Comment src txt) = [Comment src txt]"

fun isDecl :: "css_node \<Rightarrow> bool" where
  "isDecl (Declaration src txt p v) = True"
| "isDecl _ = False"

fun isRule :: "css_node \<Rightarrow> bool" where
  "isRule (Rule src txt sel ns) = True"
| "isRule _ = False"

fun isAtRule :: "css_node \<Rightarrow> bool" where
  "isAtRule (AtRule src txt n ps ns) = True"
| "isAtRule _ = False"

definition walkDecls :: "css_node list \<Rightarrow> css_node list" where
  "walkDecls rootNodes = filter isDecl (concat (map walk rootNodes))"

definition walkRules :: "css_node list \<Rightarrow> css_node list" where
  "walkRules rootNodes = filter isRule (concat (map walk rootNodes))"

definition walkAtRules :: "css_node list \<Rightarrow> css_node list" where
  "walkAtRules rootNodes = filter isAtRule (concat (map walk rootNodes))"

text \<open>
  What the callback given to the selector parser walks: the values of the pseudo nodes,
  the \<open>attribute\<close> of the attribute nodes and the values of the combinator nodes, each in
  document order.
\<close>

record selector_ast =
  pseudos :: "string list"
  attributes :: "string list"
  combinators :: "string list"

text \<open>The two parsers are taken as they are: \<open>postcss.parse(content, {from: filePath})\<close>,
  which may throw, and \<open>processSync\<close> of the selector parser, \<open>None\<close> when it throws.\<close>

type_synonym css_parser = "string \<Rightarrow> string \<Rightarrow> css_error + css_node list"

type_synonym selector_parser = "string \<Rightarrow> selector_ast option"

subsection \<open>Emitting a usage\<close>

definition css_determineSeverity :: "tier \<Rightarrow> bool \<Rightarrow> severity" where
  "css_determineSeverity b meets =
     (if \<not> meets then (if b = Limited then Error else Warning) else Info)"

definition getContext :: "css_node \<Rightarrow> string \<Rightarrow> string" where
  "getContext node ty =
     (if ty = ''property'' then node_prop node @ '': '' @ node_value node
      else if ty = ''at-rule'' then ''@'' @ node_name node @ '' '' @ node_params node
      else if ty = ''pseudo-selector'' then ''selector: '' @ node_selector node
      else take 100 (node_text node) @ (if length (node_text node) > 100 then ''...'' else []))"

definition css_polyfills :: "(string \<times> string) list" where
  "css_polyfills =
    [(''css-grid'', ''CSS Grid polyfill or Flexbox fallback''),
     (''custom-properties'', ''PostCSS custom properties plugin''),
     (''gap'', ''Use margin/padding for older browsers''),
     (''object-fit'', ''object-fit-images polyfill''),
     (''sticky'', ''position: -webkit-sticky; position: sticky;'')]"

definition css_getPolyfillSuggestion :: "string \<Rightarrow> string option" where
  "css_getPolyfillSuggestion fid = map_of css_polyfills fid"

definition css_alternatives :: "(string \<times> string) list" where
  "css_alternatives =
    [(''css-grid'', ''Use Flexbox for simpler layouts''),
     (''gap'', ''Use margin or padding properties''),
     (''aspect-ratio'', ''Use padding-bottom percentage technique''),
     (''clamp'', ''Use calc() with min/max functions''),
     (''container-queries'', ''Use media queries as fallback'')]"

definition css_getAlternativeSuggestion :: "string \<Rightarrow> string option" where
  "css_getAlternativeSuggestion fid = map_of css_alternatives fid"

text \<open>\<open>CSSAnalyzer.checkFeature\<close>.\<close>

definition css_checkFeature ::
  "BaselineChecker \<Rightarrow> string \<Rightarrow> css_node \<Rightarrow> FeatureUsage list \<Rightarrow> string \<Rightarrow> string
     \<Rightarrow> FeatureUsage list" where
  "css_checkFeature chk fid node features filePath ty =
     (let result = checkFeature chk fid in
      case baseline result of
        None \<Rightarrow> features
      | Some b \<Rightarrow>
          features @
          [\<lparr>feature = fid, featureId = fid, usage_file = filePath,
            line = node_line node, column = node_column node,
            usage_context = getContext node ty,
            usage_baseline = Some b,
            usage_browsers = browsers result,
            severity = css_determineSeverity b (meetsCriteria result),
            usage_suggestion = suggestion result,
            polyfill = css_getPolyfillSuggestion fid,
            alternative = css_getAlternativeSuggestion fid\<rparr>])"

subsection \<open>Declarations\<close>

text \<open>\<open>/([a-zA-Z-]+)\s*\(/g\<close>; group 1 is the first piece.\<close>

definition functionRegex :: pattern where
  "functionRegex = [[Plus (Chars (alphaChars @ ''-'')), Star Space, Lit ''('']]"

text \<open>\<open>/\d+(\.\d+)?\s*([a-zA-Z%]+)/g\<close>: with the optional group, then without it;
  group 2 is the last piece.\<close>

definition unitRegex :: pattern where
  "unitRegex =
    [[Plus (Chars digitChars), Lit ''.'', Plus (Chars digitChars), Star Space,
      Plus (Chars (alphaChars @ ''%''))],
     [Plus (Chars digitChars), Star Space, Plus (Chars (alphaChars @ ''%''))]]"

definition cssKeywords :: "string list" where
  "cssKeywords =
    [''initial'', ''inherit'', ''unset'', ''revert'', ''revert-layer'',
     ''fit-content'', ''max-content'', ''min-content'',
     ''stretch'', ''start'', ''end'', ''flex-start'', ''flex-end'',
     ''space-between'', ''space-around'', ''space-evenly'']"

definition unitNames :: "string list" where
  "unitNames = [''vh'', ''vw'', ''vmin'', ''vmax'', ''ch'', ''rem'', ''fr'']"

definition functionStep ::
  "BaselineChecker \<Rightarrow> css_node \<Rightarrow> string \<Rightarrow> FeatureUsage list \<Rightarrow> string list \<Rightarrow> FeatureUsage list" where
  "functionStep chk node filePath features m =
     css_checkFeature chk (hd m) node features filePath ''function''"

definition keywordStep ::
  "BaselineChecker \<Rightarrow> string \<Rightarrow> css_node \<Rightarrow> string \<Rightarrow> FeatureUsage list \<Rightarrow> string \<Rightarrow> FeatureUsage list" where
  "keywordStep chk v node filePath features keyword =
     (if str_includes v keyword
      then css_checkFeature chk keyword node features filePath ''keyword''
      else features)"

definition unitStep ::
  "BaselineChecker \<Rightarrow> css_node \<Rightarrow> string \<Rightarrow> FeatureUsage list \<Rightarrow> string list \<Rightarrow> FeatureUsage list" where
  "unitStep chk node filePath features m =
     (if last m \<in> set unitNames
      then css_checkFeature chk (last m @ ''-unit'') node features filePath ''unit''
      else features)"

definition analyzeValue ::
  "BaselineChecker \<Rightarrow> string \<Rightarrow> css_node \<Rightarrow> FeatureUsage list \<Rightarrow> string \<Rightarrow> FeatureUsage list" where
  "analyzeValue chk v node features filePath =
     (let f1 = foldl (functionStep chk node filePath) features (exec_all functionRegex v);
          f2 = foldl (keywordStep chk v node filePath) f1 cssKeywords
      in foldl (unitStep chk node filePath) f2 (exec_all unitRegex v))"

definition analyzeDeclaration ::
  "BaselineChecker \<Rightarrow> string \<Rightarrow> FeatureUsage list \<Rightarrow> css_node \<Rightarrow> FeatureUsage list" where
  "analyzeDeclaration chk filePath features decl =
     (let f1 = css_checkFeature chk (node_prop decl) decl features filePath ''property'';
          f2 = analyzeValue chk (node_value decl) decl f1 filePath
      in if startsWith (node_prop decl) ''-''
         then css_checkFeature chk (stripVendorPrefix (node_prop decl)) decl f2 filePath
                ''prefixed-property''
         else f2)"

subsection \<open>Selectors\<close>

definition pseudoStep ::
  "BaselineChecker \<Rightarrow> css_node \<Rightarrow> string \<Rightarrow> FeatureUsage list \<Rightarrow> string \<Rightarrow> FeatureUsage list" where
  "pseudoStep chk rule filePath features pseudoValue =
     css_checkFeature chk pseudoValue rule features filePath ''pseudo-selector''"

definition attributeStep ::
  "BaselineChecker \<Rightarrow> css_node \<Rightarrow> string \<Rightarrow> FeatureUsage list \<Rightarrow> string \<Rightarrow> FeatureUsage list" where
  "attributeStep chk rule filePath features attr =
     (if attr \<noteq> []
      then css_checkFeature chk (''['' @ attr @ '']'') rule features filePath ''attribute-selector''
      else features)"

definition combinatorStep ::
  "BaselineChecker \<Rightarrow> css_node \<Rightarrow> string \<Rightarrow> FeatureUsage list \<Rightarrow> string \<Rightarrow> FeatureUsage list" where
  "combinatorStep chk rule filePath features combinatorValue =
     (if combinatorValue = ''>>>'' \<or> combinatorValue = ''/deep/''
      then css_checkFeature chk ''deep-combinator'' rule features filePath ''combinator''
      else features)"

text \<open>A selector the parser rejects leaves the list as it is (the empty \<open>catch\<close>).\<close>

definition analyzeSelector ::
  "selector_parser \<Rightarrow> BaselineChecker \<Rightarrow> string \<Rightarrow> FeatureUsage list \<Rightarrow> css_node
     \<Rightarrow> FeatureUsage list" where
  "analyzeSelector selectorParser chk filePath features rule =
     (case selectorParser (node_selector rule) of
        None \<Rightarrow> features
      | Some selectors \<Rightarrow>
          (let f1 = foldl (pseudoStep chk rule filePath) features (pseudos selectors);
               f2 = foldl (attributeStep chk rule filePath) f1 (attributes selectors)
           in foldl (combinatorStep chk rule filePath) f2 (combinators selectors)))"

subsection \<open>At-rules\<close>

definition mediaFeatures :: "string list" where
  "mediaFeatures =
    [''prefers-color-scheme'', ''prefers-reduced-motion'', ''prefers-contrast'',
     ''hover'', ''pointer'', ''any-hover'', ''any-pointer'',
     ''display-mode'', ''orientation'', ''aspect-ratio'']"

definition mediaStep ::
  "BaselineChecker \<Rightarrow> string \<Rightarrow> css_node \<Rightarrow> string \<Rightarrow> FeatureUsage list \<Rightarrow> string \<Rightarrow> FeatureUsage list" where
  "mediaStep chk query node filePath features feat =
     (if str_includes query feat
      then css_checkFeature chk feat node features filePath ''media-feature''
      else features)"

definition analyzeMediaQuery ::
  "BaselineChecker \<Rightarrow> string \<Rightarrow> css_node \<Rightarrow> FeatureUsage list \<Rightarrow> string \<Rightarrow> FeatureUsage list" where
  "analyzeMediaQuery chk query node features filePath =
     foldl (mediaStep chk query node filePath) features mediaFeatures"

text \<open>\<open>/\(\s*([a-zA-Z-]+)\s*:/g\<close>; group 1 is the third piece.\<close>

definition propertyRegex :: pattern where
  "propertyRegex =
    [[Lit ''('', Star Space, Plus (Chars (alphaChars @ ''-'')), Star Space, Lit '':'']]"

definition supportsStep ::
  "BaselineChecker \<Rightarrow> css_node \<Rightarrow> string \<Rightarrow> FeatureUsage list \<Rightarrow> string list \<Rightarrow> FeatureUsage list" where
  "supportsStep chk node filePath features m =
     css_checkFeature chk (m ! 2) node features filePath ''supports-property''"

definition analyzeSupportsQuery ::
  "BaselineChecker \<Rightarrow> string \<Rightarrow> css_node \<Rightarrow> FeatureUsage list \<Rightarrow> string \<Rightarrow> FeatureUsage list" where
  "analyzeSupportsQuery chk query node features filePath =
     foldl (supportsStep chk node filePath) features (exec_all propertyRegex query)"

definition analyzeAtRule ::
  "BaselineChecker \<Rightarrow> string \<Rightarrow> FeatureUsage list \<Rightarrow> css_node \<Rightarrow> FeatureUsage list" where
  "analyzeAtRule chk filePath features atRule =
     (let f1 = css_checkFeature chk (''@'' @ node_name atRule) atRule features filePath ''at-rule'' in
      if node_name atRule = ''media''
      then analyzeMediaQuery chk (node_params atRule) atRule f1 filePath
      else if node_name atRule = ''supports''
      then analyzeSupportsQuery chk (node_params atRule) atRule f1 filePath
      else if node_name atRule = ''container''
      then css_checkFeature chk ''container-queries'' atRule f1 filePath ''at-rule''
      else if node_name atRule = ''layer''
      then css_checkFeature chk ''cascade-layers'' atRule f1 filePath ''at-rule''
      else f1)"

subsection \<open>A whole stylesheet\<close>

text \<open>The three walks over a parsed stylesheet, in the order of the source.\<close>

definition css_walks ::
  "selector_parser \<Rightarrow> BaselineChecker \<Rightarrow> string \<Rightarrow> css_node list \<Rightarrow> FeatureUsage list" where
  "css_walks selectorParser chk filePath rootNodes =
     (let f1 = foldl (analyzeDeclaration chk filePath) [] (walkDecls rootNodes);
          f2 = foldl (analyzeSelector selectorParser chk filePath) f1 (walkRules rootNodes)
      in foldl (analyzeAtRule chk filePath) f2 (walkAtRules rootNodes))"

text \<open>
  \<open>CSSAnalyzer.analyze\<close>. The parse is the first statement of the \<open>try\<close> block: when it
  throws, the \<open>catch\<close> logs a warning and the list is still empty.
\<close>

definition css_analyze ::
  "css_parser \<Rightarrow> selector_parser \<Rightarrow> BaselineChecker \<Rightarrow> string \<Rightarrow> string \<Rightarrow> FileAnalysis" where
  "css_analyze parse selectorParser chk content filePath =
     \<lparr>fa_file = filePath, fa_type = CssFile,
      fa_features =
        (case parse content filePath of
           Inl err \<Rightarrow> []
         | Inr rootNodes \<Rightarrow> css_walks selectorParser chk filePath rootNodes)\<rparr>"


section \<open>Numbers of the JavaScript runtime\<close>

text \<open>
  A number is an IEEE 754 double; it is modelled by the rational it denotes. An arithmetic
  operation gives the exact result rounded to the nearest double (53 significant bits), a
  tie going to the even significand. Overflow and subnormal numbers are left out: every
  value below lies far inside the normal range.
\<close>

text \<open>For \<open>x > 0\<close>, the exponent \<open>e\<close> with \<open>2\<^sup>e \<le> x < 2\<^sup>e\<^sup>+\<^sup>1\<close>, from the
  numbers of binary digits (\<^const>\<open>bitlen\<close>) of numerator and denominator.\<close>

definition expo :: "rat \<Rightarrow> int" where
  "expo x =
     (case quotient_of x of (p, q) \<Rightarrow>
        let k = bitlen p - bitlen q
        in if 2 powi k \<le> x then k else k - 1)"

text \<open>Rounding to the nearest integer, a tie to the even one.\<close>

definition rne :: "rat \<Rightarrow> int" where
  "rne y =
     (let f = \<lfloor>y\<rfloor>; d = y - of_int f
      in if d < 1 / 2 then f
         else if 1 / 2 < d then f + 1
         else if even f then f else f + 1)"

definition fl_pos :: "rat \<Rightarrow> rat" where
  "fl_pos x = of_int (rne (x * 2 powi (52 - expo x))) * 2 powi (expo x - 52)"

definition fl :: "rat \<Rightarrow> rat" where
  "fl x = (if x = 0 then 0 else if x < 0 then - fl_pos (- x) else fl_pos x)"

definition js_add :: "rat \<Rightarrow> rat \<Rightarrow> rat" where
  "js_add a b = fl (a + b)"

definition js_mul :: "rat \<Rightarrow> rat \<Rightarrow> rat" where
  "js_mul a b = fl (a * b)"

definition js_div :: "rat \<Rightarrow> rat \<Rightarrow> rat" where
  "js_div a b = fl (a / b)"

text \<open>\<open>Math.round\<close>: the nearest integer, a tie going up. It is exact.\<close>

definition Math_round :: "rat \<Rightarrow> int" where
  "Math_round x = \<lfloor>x + 1 / 2\<rfloor>"


section \<open>The aggregator (Analyzer.ts) and the risk score of the JSON report\<close>

record result_summary =
  errors :: nat
  warnings :: nat
  suggestions :: nat
  compatibilityScore :: int

record ModernizationSuggestion =
  category :: string
  oldFeature :: string
  newFeature :: string
  baselineStatus :: string
  impact :: string
  effort :: string
  description :: string
  example :: "string option"

text \<open>\<open>AnalysisResult\<close>. The lists \<open>warnings\<close> and \<open>suggestions\<close> are \<open>warningList\<close>
  and \<open>suggestionList\<close> here, apart from the counts of the summary.\<close>

record AnalysisResult =
  totalFiles :: nat
  totalFeatures :: nat
  violations :: "FeatureUsage list"
  warningList :: "FeatureUsage list"
  suggestionList :: "FeatureUsage list"
  summary :: result_summary
  modernizationOpportunities :: "ModernizationSuggestion list"

text \<open>\<open>s.match(/\.(a|b|...)$/)\<close>: the text ends with a dot and one of the extensions.\<close>

definition endsWith :: "string \<Rightarrow> string \<Rightarrow> bool" where
  "endsWith s p = (length p \<le> length s \<and> drop (length s - length p) s = p)"

definition hasExtension :: "string \<Rightarrow> string list \<Rightarrow> bool" where
  "hasExtension s exts = list_ex (\<lambda>e. endsWith s (''.'' @ e)) exts"

text \<open>\<open>groupFeaturesByType\<close>, one definition for each field of its result.\<close>

definition cssGroup :: "FeatureUsage list \<Rightarrow> FeatureUsage list" where
  "cssGroup features =
     filter (\<lambda>f. hasExtension (usage_file f) [''css'', ''scss'', ''sass'', ''less'']) features"

definition javascriptGroup :: "FeatureUsage list \<Rightarrow> FeatureUsage list" where
  "javascriptGroup features =
     filter (\<lambda>f. hasExtension (usage_file f) [''js'', ''jsx'', ''ts'', ''tsx'']) features"

definition htmlGroup :: "FeatureUsage list \<Rightarrow> FeatureUsage list" where
  "htmlGroup features =
     filter (\<lambda>f. hasExtension (usage_file f) [''html'', ''htm'']) features"

definition generateModernizationSuggestions ::
  "FeatureUsage list \<Rightarrow> ModernizationSuggestion list" where
  "generateModernizationSuggestions features =
     (let s1 = (if list_ex (\<lambda>f. str_includes (feature f) ''float'') (cssGroup features)
                then [\<lparr>category = ''css'', oldFeature = ''Float-based layouts'',
                       newFeature = ''CSS Grid/Flexbox'', baselineStatus = ''widely-available'',
                       impact = ''high'', effort = ''medium'',
                       description = ''Replace float-based layouts with modern CSS Grid or Flexbox for better responsive design'',
                       example = Some ''display: grid; grid-template-columns: repeat(auto-fit, minmax(300px, 1fr));''\<rparr>]
                else []);
          s2 = (if list_ex (\<lambda>f. feature f = ''xhr'') (javascriptGroup features)
                then s1 @
                     [\<lparr>category = ''javascript'', oldFeature = ''XMLHttpRequest'',
                       newFeature = ''Fetch API'', baselineStatus = ''widely-available'',
                       impact = ''medium'', effort = ''low'',
                       description = ''Replace XMLHttpRequest with modern Fetch API for cleaner async code'',
                       example = Some ''fetch(\"/api/data\").then(response => response.json())''\<rparr>]
                else s1);
          modernCssFeatures =
            filter (\<lambda>f. usage_baseline f = Some NewlyAvailable \<and>
                         feature f \<in> set [''container-queries'', ''cascade-layers'', ''css-grid'', ''flexbox''])
              features
      in if length modernCssFeatures > 0
         then s2 @
              [\<lparr>category = ''css'', oldFeature = ''Legacy layout techniques'',
                newFeature = ''Modern CSS features'', baselineStatus = ''newly-available'',
                impact = ''high'', effort = ''medium'',
                description = ''Adopt newly available CSS features for better layouts and maintainability'',
                example = None\<rparr>]
         else s2)"

text \<open>The \<open>switch\<close> of \<open>calculateCompatibilityScore\<close>.\<close>

definition tierScore :: "tier option \<Rightarrow> rat" where
  "tierScore b =
     (case b of
        Some WidelyAvailable \<Rightarrow> 100
      | Some NewlyAvailable \<Rightarrow> 75
      | Some Limited \<Rightarrow> 25
      | None \<Rightarrow> 50)"

definition calculateCompatibilityScore :: "FeatureUsage list \<Rightarrow> int" where
  "calculateCompatibilityScore features =
     (if length features = 0 then 100
      else (let scores = map (\<lambda>f. tierScore (usage_baseline f)) features
            in Math_round (js_div (foldl (\<lambda>sum score. js_add sum score) 0 scores)
                 (of_nat (length scores)))))"

definition generateReport :: "FileAnalysis list \<Rightarrow> AnalysisResult" where
  "generateReport fileAnalyses =
     (let allFeatures = concat (map fa_features fileAnalyses);
          vs = filter (\<lambda>f. severity f = Error) allFeatures;
          ws = filter (\<lambda>f. severity f = Warning) allFeatures;
          ss = filter (\<lambda>f. severity f = Info) allFeatures
      in \<lparr>totalFiles = length fileAnalyses,
          totalFeatures = length allFeatures,
          violations = vs, warningList = ws, suggestionList = ss,
          summary = \<lparr>errors = length vs, warnings = length ws, suggestions = length ss,
                      compatibilityScore = calculateCompatibilityScore allFeatures\<rparr>,
          modernizationOpportunities = generateModernizationSuggestions allFeatures\<rparr>)"

text \<open>\<open>JSONReporter.calculateRiskScore\<close>.\<close>

definition calculateRiskScore :: "AnalysisResult \<Rightarrow> int" where
  "calculateRiskScore result =
     (let errorWeight = 3;
          warningWeight = 1;
          totalRisk = js_add (js_mul (of_nat (errors (summary result))) errorWeight)
                        (js_mul (of_nat (warnings (summary result))) warningWeight);
          maxPossibleRisk = js_mul (of_nat (totalFeatures result)) errorWeight
      in if maxPossibleRisk = 0 then 0
         else Math_round (js_mul (js_div totalRisk maxPossibleRisk) 100))"


section \<open>What the extractors emit\<close>

text \<open>
  The severity rule in the words of the specification, and the predicates the proofs below
  carry through the walks: a usage of the stylesheet extractor comes from a node of the
  parsed tree and a candidate kind that fits the node; a usage of the script extractor
  comes from a line number and a token of the detection table.
\<close>

definition severity_rule :: "tier \<Rightarrow> bool \<Rightarrow> severity" where
  "severity_rule t meets = (if meets then Info else if t = Limited then Error else Warning)"

definition kind_ok :: "string \<Rightarrow> css_node \<Rightarrow> bool" where
  "kind_ok ty node =
     ((ty = ''property'' \<longrightarrow> isDecl node) \<and>
      (ty = ''at-rule'' \<longrightarrow> isAtRule node) \<and>
      (ty = ''pseudo-selector'' \<longrightarrow> isRule node))"

definition css_emitted :: "BaselineChecker \<Rightarrow> css_node set \<Rightarrow> FeatureUsage \<Rightarrow> bool" where
  "css_emitted chk N u =
     (\<exists>node ty b. node \<in> N \<and> kind_ok ty node \<and>
        baseline (checkFeature chk (featureId u)) = Some b \<and>
        feature u = featureId u \<and>
        usage_baseline u = Some b \<and>
        severity u = css_determineSeverity b (meetsCriteria (checkFeature chk (featureId u))) \<and>
        usage_context u = getContext node ty \<and>
        line u = node_line node \<and> column u = node_column node)"

definition all_emitted :: "BaselineChecker \<Rightarrow> css_node set \<Rightarrow> FeatureUsage list \<Rightarrow> bool" where
  "all_emitted chk N fs = (\<forall>u \<in> set fs. css_emitted chk N u)"

definition js_emitted :: "BaselineChecker \<Rightarrow> nat \<Rightarrow> string \<Rightarrow> FeatureUsage \<Rightarrow> bool" where
  "js_emitted chk lineNumber fid u =
     (feature u = fid \<and> featureId u = fid \<and> line u = lineNumber \<and> column u = 0 \<and>
      (\<exists>b. baseline (checkFeature chk fid) = Some b \<and> usage_baseline u = Some b \<and>
           severity u = js_determineSeverity b (meetsCriteria (checkFeature chk fid))))"

definition usage_key :: "FeatureUsage \<Rightarrow> nat \<times> string" where
  "usage_key u = (line u, feature u)"

definition lineTable :: "(pattern \<times> string \<times> string) list" where
  "lineTable =
     map (\<lambda>m. (methodPattern m, ''array-'' @ m, ''Array.'' @ m @ '' method'')) arrayMethods @
     map (\<lambda>m. (methodPattern m, ''string-'' @ m, ''String.'' @ m @ '' method'')) stringMethods @
     map (\<lambda>m. (objectMethodPattern m, ''object-'' @ m, ''Object.'' @ m @ '' method'')) objectMethods @
     syntaxPatterns @ apiPatterns"

definition js_inv :: "BaselineChecker \<Rightarrow> nat \<Rightarrow> FeatureUsage list \<Rightarrow> bool" where
  "js_inv chk i fs =
     (distinct (map usage_key fs) \<and>
      (\<forall>u \<in> set fs. line u \<le> i \<and> (\<exists>n fid. js_emitted chk n fid u)))"

text \<open>
  The calls of \<open>CSSAnalyzer.checkFeature\<close> a parsed stylesheet gives rise to, in the order
  the extractor makes them: each candidate is the token, the node and the \<open>type\<close> argument
  of one call. \<open>css_emit\<close> is what one call adds to the list.
\<close>

type_synonym css_candidate = "string \<times> css_node \<times> string"

definition css_emit :: "BaselineChecker \<Rightarrow> string \<Rightarrow> css_candidate \<Rightarrow> FeatureUsage list" where
  "css_emit chk filePath c =
     (case c of (fid, node, ty) \<Rightarrow> css_checkFeature chk fid node [] filePath ty)"

definition css_emit_all :: "BaselineChecker \<Rightarrow> string \<Rightarrow> css_candidate list \<Rightarrow> FeatureUsage list" where
  "css_emit_all chk filePath cs = concat (map (css_emit chk filePath) cs)"

definition valueCandidates :: "string \<Rightarrow> css_node \<Rightarrow> css_candidate list" where
  "valueCandidates v node =
     concat (map (\<lambda>m. [(hd m, node, ''function'')]) (exec_all functionRegex v)) @
     concat (map (\<lambda>k. if str_includes v k then [(k, node, ''keyword'')] else []) cssKeywords) @
     concat (map (\<lambda>m. if last m \<in> set unitNames then [(last m @ ''-unit'', node, ''unit'')] else [])
               (exec_all unitRegex v))"

definition declCandidates :: "css_node \<Rightarrow> css_candidate list" where
  "declCandidates decl =
     [(node_prop decl, decl, ''property'')] @
     valueCandidates (node_value decl) decl @
     (if startsWith (node_prop decl) ''-''
      then [(stripVendorPrefix (node_prop decl), decl, ''prefixed-property'')]
      else [])"

definition selectorCandidates :: "selector_parser \<Rightarrow> css_node \<Rightarrow> css_candidate list" where
  "selectorCandidates selectorParser rule =
     (case selectorParser (node_selector rule) of
        None \<Rightarrow> []
      | Some selectors \<Rightarrow>
          concat (map (\<lambda>p. [(p, rule, ''pseudo-selector'')]) (pseudos selectors)) @
          concat (map (\<lambda>a. if a \<noteq> [] then [(''['' @ a @ '']'', rule, ''attribute-selector'')] else [])
                    (attributes selectors)) @
          concat (map (\<lambda>c. if c = ''>>>'' \<or> c = ''/deep/''
                           then [(''deep-combinator'', rule, ''combinator'')] else [])
                    (combinators selectors)))"

definition atRuleCandidates :: "css_node \<Rightarrow> css_candidate list" where
  "atRuleCandidates atRule =
     [(''@'' @ node_name atRule, atRule, ''at-rule'')] @
     (if node_name atRule = ''media''
      then concat (map (\<lambda>f. if str_includes (node_params atRule) f
                              then [(f, atRule, ''media-feature'')] else [])
                     mediaFeatures)
      else if node_name atRule = ''supports''
      then concat (map (\<lambda>m. [(m ! 2, atRule, ''supports-property'')])
                     (exec_all propertyRegex (node_params atRule)))
      else if node_name atRule = ''container''
      then [(''container-queries'', atRule, ''at-rule'')]
      else if node_name atRule = ''layer''
      then [(''cascade-layers'', atRule, ''at-rule'')]
      else [])"

definition css_candidates :: "selector_parser \<Rightarrow> css_node list \<Rightarrow> css_candidate list" where
  "css_candidates selectorParser rootNodes =
     concat (map declCandidates (walkDecls rootNodes)) @
     concat (map (selectorCandidates selectorParser) (walkRules rootNodes)) @
     concat (map atRuleCandidates (walkAtRules rootNodes))"

text \<open>A candidate resolves when the checker gives its token a tier.\<close>

definition resolves :: "BaselineChecker \<Rightarrow> css_candidate \<Rightarrow> bool" where
  "resolves chk c = (case c of (fid, node, ty) \<Rightarrow> baseline (checkFeature chk fid) \<noteq> None)"

definition cand_ok :: "css_candidate \<Rightarrow> bool" where
  "cand_ok c = (case c of (fid, node, ty) \<Rightarrow> kind_ok ty node)"

text \<open>What the usage of a resolved candidate carries: token and position of the call, and
  the context its kind selects.\<close>

definition usage_matches :: "FeatureUsage \<Rightarrow> css_candidate \<Rightarrow> bool" where
  "usage_matches u c =
     (case c of (fid, node, ty) \<Rightarrow>
        featureId u = fid \<and> line u = node_line node \<and> column u = node_column node \<and>
        (ty = ''property'' \<longrightarrow>
           isDecl node \<and> usage_context u = node_prop node @ '': '' @ node_value node) \<and>
        (ty = ''at-rule'' \<longrightarrow>
           isAtRule node \<and> usage_context u = ''@'' @ node_name node @ '' '' @ node_params node) \<and>
        (ty = ''pseudo-selector'' \<longrightarrow>
           isRule node \<and> usage_context u = ''selector: '' @ node_selector node) \<and>
        (ty \<notin> {''property'', ''at-rule'', ''pseudo-selector''} \<longrightarrow>
           usage_context u =
             take 100 (node_text node) @ (if length (node_text node) > 100 then ''...'' else []) \<and>
           length (usage_context u) \<le> 103))"


text \<open>
  The scores in the words of the specification, over exact rationals: the points of a
  tier, the rounded mean of the points, and the rounded risk ratio.
\<close>

definition specPoints :: "tier option \<Rightarrow> nat" where
  "specPoints b =
     (case b of
        Some WidelyAvailable \<Rightarrow> 100
      | Some NewlyAvailable \<Rightarrow> 75
      | Some Limited \<Rightarrow> 25
      | None \<Rightarrow> 50)"

definition specCompatibilityScore :: "FeatureUsage list \<Rightarrow> int" where
  "specCompatibilityScore fs =
     (if fs = [] then 100
      else round (of_nat (sum_list (map (\<lambda>f. specPoints (usage_baseline f)) fs)) /
                  of_nat (length fs) :: rat))"

definition specRiskScore :: "AnalysisResult \<Rightarrow> int" where
  "specRiskScore result =
     (if totalFeatures result = 0 then 0
      else round (100 * (3 * of_nat (errors (summary result)) +
                         1 * of_nat (warnings (summary result))) /
                  (3 * of_nat (totalFeatures result)) :: rat))"


section \<open>Sample inputs\<close>

text \<open>
  A small dataset in the shape of \<open>web-features\<close>, a configuration as in the tests, and
  the checker built from them. The last record of the dataset is a redirect entry: it has
  neither a name nor a status.
\<close>

definition flexboxFeature :: feature where
  "flexboxFeature =
     \<lparr>name = Some ''Flexbox'',
      status = Some \<lparr>status_baseline = Some ''high'',
                      support = Some [(''chrome'', ''29''), (''firefox'', ''28''), (''safari'', ''9'')]\<rparr>,
      compat_features = Some [''css.properties.flex-direction'', ''css.properties.display.flex'']\<rparr>"

definition containerFeature :: feature where
  "containerFeature =
     \<lparr>name = Some ''Container queries'',
      status = Some \<lparr>status_baseline = Some ''low'',
                      support = Some [(''chrome'', ''105''), (''firefox'', ''110''), (''safari'', ''16'')]\<rparr>,
      compat_features = Some [''css.at-rules.container'']\<rparr>"

definition transitionsFeature :: feature where
  "transitionsFeature =
     \<lparr>name = Some ''Transitions (CSS)'',
      status = Some \<lparr>status_baseline = Some ''high'',
                      support = Some [(''chrome'', ''26''), (''firefox'', ''16''), (''safari'', ''9'')]\<rparr>,
      compat_features = Some [''css.properties.transition'']\<rparr>"

definition fetchFeature :: feature where
  "fetchFeature =
     \<lparr>name = Some ''Fetch'',
      status = Some \<lparr>status_baseline = Some ''high'',
                      support = Some [(''chrome'', ''42''), (''firefox'', ''39''), (''safari'', ''10.1'')]\<rparr>,
      compat_features = Some [''api.fetch'']\<rparr>"

definition viewTransitionsFeature :: feature where
  "viewTransitionsFeature =
     \<lparr>name = Some ''View transitions'',
      status = Some \<lparr>status_baseline = None, support = Some [(''chrome'', ''111'')]\<rparr>,
      compat_features = Some [''css.properties.view-transition-name'']\<rparr>"

definition movedFeature :: feature where
  "movedFeature = \<lparr>name = None, status = None, compat_features = None\<rparr>"

definition sampleFeatures :: "(string \<times> feature) list" where
  "sampleFeatures =
    [(''flexbox'', flexboxFeature),
     (''container-queries'', containerFeature),
     (''transitions'', transitionsFeature),
     (''fetch'', fetchFeature),
     (''view-transitions'', viewTransitionsFeature),
     (''numeric-seperators'', movedFeature)]"

definition sampleConfig :: BaselineConfig where
  "sampleConfig =
     \<lparr>target = ''widely-available'',
      config_browsers = [''chrome'', ''firefox'', ''safari'', ''edge''],
      exceptions = [], ignoreFiles = [], generateFixes = False, reportFormat = ''console''\<rparr>"

definition sampleChecker :: BaselineChecker where
  "sampleChecker = newBaselineChecker sampleFeatures sampleConfig"

text \<open>
  A stylesheet with the rule tree and the selectors the parsers give for it; any other
  text is rejected, as a malformed stylesheet is.
\<close>

definition sampleValue :: string where
  "sampleValue = ''opacity 0.3s ease-in-out, transform 0.3s ease-in-out, visibility 0.3s ease-in-out, background-color 0.3s ease-in-out''"

definition sampleCss :: string where
  "sampleCss = ''.a:hover{transition:'' @ sampleValue @
     '';view-transition-name:hero}@container (min-width:400px){.a{display:flex}}''"

definition sampleTree :: "css_node list" where
  "sampleTree =
    [Rule (Some (1, 1))
       (''.a:hover{transition:'' @ sampleValue @ '';view-transition-name:hero}'')
       ''.a:hover''
       [Declaration (Some (1, 10)) (''transition:'' @ sampleValue) ''transition'' sampleValue,
        Declaration (Some (1, 138)) ''view-transition-name:hero'' ''view-transition-name'' ''hero''],
     AtRule (Some (1, 164)) ''@container (min-width:400px){.a{display:flex}}''
       ''container'' ''(min-width:400px)''
       [Rule (Some (1, 193)) ''.a{display:flex}'' ''.a''
          [Declaration (Some (1, 196)) ''display:flex'' ''display'' ''flex'']]]"

definition sampleParse :: css_parser where
  "sampleParse content filePath =
     (if content = sampleCss then Inr sampleTree else Inl (CssSyntaxError ''Unclosed block''))"

definition sampleSelectorParser :: selector_parser where
  "sampleSelectorParser sel =
     (if sel = ''.a:hover''
      then Some \<lparr>pseudos = ['':hover''], attributes = [], combinators = []\<rparr>
      else if sel = ''.a''
      then Some \<lparr>pseudos = [], attributes = [], combinators = []\<rparr>
      else None)"

text \<open>A script of two lines; the first calls \<open>fetch\<close> twice.\<close>

definition sampleScript :: string where
  "sampleScript =
     ''const r = await fetch(a), s = await fetch(b);'' @ [CHR 0x0A] @
     ''startViewTransition(() => fetch(c));''"

text \<open>A usage of a given tier and severity, and a file with 23 errors among 40 usages.\<close>

definition sampleUsage :: "tier option \<Rightarrow> severity \<Rightarrow> FeatureUsage" where
  "sampleUsage b s =
     \<lparr>feature = ''transition'', featureId = ''transition'', usage_file = ''a.css'',
      line = 1, column = 10, usage_context = ''transition: none'',
      usage_baseline = b, usage_browsers = [], severity = s,
      usage_suggestion = None, polyfill = None, alternative = None\<rparr>"

definition riskAnalysis :: FileAnalysis where
  "riskAnalysis =
     \<lparr>fa_file = ''a.css'', fa_type = CssFile,
      fa_features = replicate 23 (sampleUsage (Some Limited) Error) @
                    replicate 17 (sampleUsage (Some WidelyAvailable) Info)\<rparr>"

text \<open>A stylesheet with one prefixed declaration, \<open>.b{-webkit-transition:...}\<close>, and a
  selector parser that finds nothing to walk.\<close>

definition prefixedCss :: string where
  "prefixedCss = ''.b{-webkit-transition:'' @ sampleValue @ ''}''"

definition prefixedDecl :: css_node where
  "prefixedDecl =
     Declaration (Some (1, 4)) (''-webkit-transition:'' @ sampleValue)
       ''-webkit-transition'' sampleValue"

definition prefixedTree :: "css_node list" where
  "prefixedTree =
    [Rule (Some (1, 1)) (''.b{-webkit-transition:'' @ sampleValue @ ''}'') ''.b'' [prefixedDecl]]"

definition prefixedParse :: css_parser where
  "prefixedParse content filePath =
     (if content = prefixedCss then Inr prefixedTree else Inl (CssSyntaxError ''Unclosed block''))"

definition plainSelectorParser :: selector_parser where
  "plainSelectorParser sel = Some \<lparr>pseudos = [], attributes = [], combinators = []\<rparr>"


section \<open>Properties of the registry\<close>

lemma firstVariation_None:
  "(\<forall>v \<in> set vs. \<not> map_has m v) \<Longrightarrow> firstVariation m vs = None"
  by (induction vs) auto

lemma findFeature_unmatched:
  assumes "\<not> map_has m token" "\<not> map_has m (toLowerCase token)"
    "\<forall>v \<in> set (generateCssVariations token). \<not> map_has m v"
    "fuzzySearch m token = None"
  shows "findFeature m token = None"
  using assms by (simp add: findFeature_def firstVariation_None)

text \<open>
  C1. A token that no stage of the lookup matches (it is not a key, its lower-case form is
  not a key, none of its CSS variations is a key, and the substring search finds nothing)
  gets the not-found descriptor: no tier, an empty browser-support map, criteria not met.
  \<open>checkFeature\<close> is a total function of the map: there is no failure branch to take.
\<close>

theorem checkFeature_unmatched:
  assumes "\<not> map_has (featureMap chk) token"
    and "\<not> map_has (featureMap chk) (toLowerCase token)"
    and "\<forall>v \<in> set (generateCssVariations token). \<not> map_has (featureMap chk) v"
    and "fuzzySearch (featureMap chk) token = None"
  shows "checkFeature chk token =
           \<lparr>baseline = None, browsers = [], meetsCriteria = False,
            suggestion = Some (''Feature \"'' @ token @ ''\" not found in web-features database'')\<rparr>"
  using findFeature_unmatched[OF assms] by (simp add: checkFeature_def notFound_def)

theorem checkFeature_unmatched_witness:
  "baseline (checkFeature sampleChecker ''zzz'') = None \<and>
   browsers (checkFeature sampleChecker ''zzz'') = [] \<and>
   meetsCriteria (checkFeature sampleChecker ''zzz'') = False"
proof -
  have h1: "\<not> map_has (featureMap sampleChecker) ''zzz''" by code_simp
  have h2: "\<not> map_has (featureMap sampleChecker) (toLowerCase ''zzz'')" by code_simp
  have h3: "\<forall>v \<in> set (generateCssVariations ''zzz''). \<not> map_has (featureMap sampleChecker) v"
    by code_simp
  have h4: "fuzzySearch (featureMap sampleChecker) ''zzz'' = None" by code_simp
  show ?thesis using checkFeature_unmatched[OF h1 h2 h3 h4] by simp
qed

text \<open>
  C2. A token that resolves to a record with a status gets the tier of that status, and
  \<open>meetsCriteria\<close> compares the tier with the configured target: under the target
  \<open>widely-available\<close> only the tier widely-available passes, under \<open>newly-available\<close> the
  tiers widely-available and newly-available pass, under \<open>limited\<close> every tier passes.
  So a token of tier widely-available passes under each of the three targets.
\<close>

theorem meetsCriteria_by_target:
  assumes "findFeature (featureMap chk) token = Some f" and "status f = Some st"
  shows "baseline (checkFeature chk token) = Some (getBaselineStatus st) \<and>
         (target (config chk) = ''widely-available'' \<longrightarrow>
            meetsCriteria (checkFeature chk token) = (getBaselineStatus st = WidelyAvailable)) \<and>
         (target (config chk) = ''newly-available'' \<longrightarrow>
            meetsCriteria (checkFeature chk token) =
              (getBaselineStatus st = WidelyAvailable \<or> getBaselineStatus st = NewlyAvailable)) \<and>
         (target (config chk) = ''limited'' \<longrightarrow> meetsCriteria (checkFeature chk token)) \<and>
         (getBaselineStatus st = WidelyAvailable \<and>
          target (config chk) \<in> {''widely-available'', ''newly-available'', ''limited''} \<longrightarrow>
            meetsCriteria (checkFeature chk token))"
  using assms by (auto simp add: checkFeature_def evaluateCriteria_def)

theorem meetsCriteria_by_target_witness:
  "meetsCriteria (checkFeature sampleChecker ''flexbox'') \<and>
   \<not> meetsCriteria (checkFeature sampleChecker ''container-queries'') \<and>
   meetsCriteria (checkFeature
     (newBaselineChecker sampleFeatures (sampleConfig\<lparr>target := ''newly-available''\<rparr>))
     ''container-queries'') \<and>
   meetsCriteria (checkFeature
     (newBaselineChecker sampleFeatures (sampleConfig\<lparr>target := ''limited''\<rparr>))
     ''view-transitions'')"
proof -
  let ?newly = "newBaselineChecker sampleFeatures (sampleConfig\<lparr>target := ''newly-available''\<rparr>)"
  let ?limited = "newBaselineChecker sampleFeatures (sampleConfig\<lparr>target := ''limited''\<rparr>)"
  have f1: "findFeature (featureMap sampleChecker) ''flexbox'' = Some flexboxFeature"
    by code_simp
  have f2: "findFeature (featureMap sampleChecker) ''container-queries'' = Some containerFeature"
    by code_simp
  have f3: "findFeature (featureMap ?newly) ''container-queries'' = Some containerFeature"
    by code_simp
  have f4: "findFeature (featureMap ?limited) ''view-transitions'' = Some viewTransitionsFeature"
    by code_simp
  have s1: "status flexboxFeature = Some \<lparr>status_baseline = Some ''high'',
      support = Some [(''chrome'', ''29''), (''firefox'', ''28''), (''safari'', ''9'')]\<rparr>"
    by (simp add: flexboxFeature_def)
  have s2: "status containerFeature = Some \<lparr>status_baseline = Some ''low'',
      support = Some [(''chrome'', ''105''), (''firefox'', ''110''), (''safari'', ''16'')]\<rparr>"
    by (simp add: containerFeature_def)
  have s4: "status viewTransitionsFeature =
      Some \<lparr>status_baseline = None, support = Some [(''chrome'', ''111'')]\<rparr>"
    by (simp add: viewTransitionsFeature_def)
  have t: "target (config sampleChecker) = ''widely-available''"
    "target (config ?newly) = ''newly-available''"
    "target (config ?limited) = ''limited''"
    by (simp_all add: sampleChecker_def newBaselineChecker_def sampleConfig_def)
  show ?thesis
    using meetsCriteria_by_target[OF f1 s1] meetsCriteria_by_target[OF f2 s2]
      meetsCriteria_by_target[OF f3 s2] meetsCriteria_by_target[OF f4 s4] t
    by (simp add: getBaselineStatus_def)
qed

text \<open>
  C5. Two configurations with the same target and the same browsers give the same answer
  for every token, whatever their exceptions lists are: tier, browser support, criteria
  and suggestion all agree.
\<close>

theorem exceptions_do_not_alter:
  assumes "target c1 = target c2" and "config_browsers c1 = config_browsers c2"
  shows "checkFeature (newBaselineChecker features c1) token =
         checkFeature (newBaselineChecker features c2) token"
  using assms
  by (simp add: checkFeature_def newBaselineChecker_def evaluateCriteria_def
      generateSuggestion_def split: option.splits)

theorem exceptions_do_not_alter_witness:
  "exceptions sampleConfig \<noteq> exceptions (sampleConfig\<lparr>exceptions := [''container-queries'']\<rparr>) \<and>
   checkFeature (newBaselineChecker sampleFeatures sampleConfig) ''container-queries'' =
   checkFeature
     (newBaselineChecker sampleFeatures (sampleConfig\<lparr>exceptions := [''container-queries'']\<rparr>))
     ''container-queries''"
  using exceptions_do_not_alter[of sampleConfig
      "sampleConfig\<lparr>exceptions := [''container-queries'']\<rparr>" sampleFeatures "''container-queries''"]
  by (simp add: sampleConfig_def)

text \<open>
  C10. A token that resolves to a record of the index with no status field gets the same
  not-found descriptor as an unmatched token: no tier, an empty browser-support map,
  criteria not met and the not-found suggestion.
\<close>

theorem checkFeature_without_status:
  assumes "findFeature (featureMap chk) token = Some f" and "status f = None"
  shows "checkFeature chk token =
           \<lparr>baseline = None, browsers = [], meetsCriteria = False,
            suggestion = Some (''Feature \"'' @ token @ ''\" not found in web-features database'')\<rparr>"
  using assms by (simp add: checkFeature_def notFound_def)

theorem checkFeature_without_status_witness:
  "findFeature (featureMap sampleChecker) ''numeric-seperators'' = Some movedFeature \<and>
   baseline (checkFeature sampleChecker ''numeric-seperators'') = None \<and>
   browsers (checkFeature sampleChecker ''numeric-seperators'') = [] \<and>
   meetsCriteria (checkFeature sampleChecker ''numeric-seperators'') = False"
proof -
  have f: "findFeature (featureMap sampleChecker) ''numeric-seperators'' = Some movedFeature"
    by code_simp
  have s: "status movedFeature = None" by (simp add: movedFeature_def)
  show ?thesis using checkFeature_without_status[OF f s] f by simp
qed


section \<open>Invariants of the extractors\<close>

lemma foldl_emitted:
  assumes "all_emitted chk N a"
    and "\<And>acc x. x \<in> set xs \<Longrightarrow> all_emitted chk N acc \<Longrightarrow> all_emitted chk N (f acc x)"
  shows "all_emitted chk N (foldl f a xs)"
  using assms by (induction xs arbitrary: a) auto

lemma css_checkFeature_emitted:
  assumes "all_emitted chk N fs" "node \<in> N" "kind_ok ty node"
  shows "all_emitted chk N (css_checkFeature chk fid node fs filePath ty)"
  using assms
  by (auto simp add: all_emitted_def css_checkFeature_def css_emitted_def Let_def
      split: option.splits)

lemma kind_ok_other [simp]:
  "kind_ok ''function'' n" "kind_ok ''keyword'' n" "kind_ok ''unit'' n"
  "kind_ok ''prefixed-property'' n" "kind_ok ''attribute-selector'' n"
  "kind_ok ''combinator'' n" "kind_ok ''media-feature'' n" "kind_ok ''supports-property'' n"
  by (simp_all add: kind_ok_def)

lemma kind_ok_same [simp]:
  "kind_ok ''property'' n = isDecl n" "kind_ok ''at-rule'' n = isAtRule n"
  "kind_ok ''pseudo-selector'' n = isRule n"
  by (simp_all add: kind_ok_def)

lemma analyzeValue_emitted:
  assumes "all_emitted chk N fs" "node \<in> N"
  shows "all_emitted chk N (analyzeValue chk v node fs filePath)"
proof -
  let ?f1 = "foldl (functionStep chk node filePath) fs (exec_all functionRegex v)"
  let ?f2 = "foldl (keywordStep chk v node filePath) ?f1 cssKeywords"
  have 1: "all_emitted chk N ?f1"
    by (rule foldl_emitted[OF assms(1)])
      (simp add: functionStep_def css_checkFeature_emitted assms(2))
  have 2: "all_emitted chk N ?f2"
    by (rule foldl_emitted[OF 1])
      (simp add: keywordStep_def css_checkFeature_emitted assms(2))
  have "all_emitted chk N (foldl (unitStep chk node filePath) ?f2 (exec_all unitRegex v))"
    by (rule foldl_emitted[OF 2])
      (simp add: unitStep_def css_checkFeature_emitted assms(2))
  then show ?thesis by (simp add: analyzeValue_def Let_def)
qed

lemma analyzeDeclaration_emitted:
  assumes "all_emitted chk N fs" "decl \<in> N" "isDecl decl"
  shows "all_emitted chk N (analyzeDeclaration chk filePath fs decl)"
  using assms
  by (simp add: analyzeDeclaration_def Let_def css_checkFeature_emitted analyzeValue_emitted)

lemma analyzeSelector_emitted:
  assumes "all_emitted chk N fs" "rule \<in> N" "isRule rule"
  shows "all_emitted chk N (analyzeSelector selectorParser chk filePath fs rule)"
proof (cases "selectorParser (node_selector rule)")
  case None
  then show ?thesis using assms by (simp add: analyzeSelector_def)
next
  case (Some selectors)
  let ?f1 = "foldl (pseudoStep chk rule filePath) fs (pseudos selectors)"
  let ?f2 = "foldl (attributeStep chk rule filePath) ?f1 (attributes selectors)"
  have 1: "all_emitted chk N ?f1"
    by (rule foldl_emitted[OF assms(1)])
      (simp add: pseudoStep_def css_checkFeature_emitted assms)
  have 2: "all_emitted chk N ?f2"
    by (rule foldl_emitted[OF 1])
      (simp add: attributeStep_def css_checkFeature_emitted assms)
  have "all_emitted chk N (foldl (combinatorStep chk rule filePath) ?f2 (combinators selectors))"
    by (rule foldl_emitted[OF 2])
      (simp add: combinatorStep_def css_checkFeature_emitted assms)
  then show ?thesis by (simp add: analyzeSelector_def Some Let_def)
qed

lemma analyzeMediaQuery_emitted:
  assumes "all_emitted chk N fs" "node \<in> N"
  shows "all_emitted chk N (analyzeMediaQuery chk q node fs filePath)"
  unfolding analyzeMediaQuery_def
  by (rule foldl_emitted[OF assms(1)]) (simp add: mediaStep_def css_checkFeature_emitted assms(2))

lemma analyzeSupportsQuery_emitted:
  assumes "all_emitted chk N fs" "node \<in> N"
  shows "all_emitted chk N (analyzeSupportsQuery chk q node fs filePath)"
  unfolding analyzeSupportsQuery_def
  by (rule foldl_emitted[OF assms(1)])
    (simp add: supportsStep_def css_checkFeature_emitted assms(2))

lemma analyzeAtRule_emitted:
  assumes "all_emitted chk N fs" "atRule \<in> N" "isAtRule atRule"
  shows "all_emitted chk N (analyzeAtRule chk filePath fs atRule)"
  using assms
  by (simp add: analyzeAtRule_def Let_def css_checkFeature_emitted
      analyzeMediaQuery_emitted analyzeSupportsQuery_emitted)

lemma css_walks_emitted:
  "all_emitted chk (set (concat (map walk rootNodes)))
     (css_walks selectorParser chk filePath rootNodes)"
proof -
  let ?N = "set (concat (map walk rootNodes))"
  let ?f1 = "foldl (analyzeDeclaration chk filePath) [] (walkDecls rootNodes)"
  let ?f2 = "foldl (analyzeSelector selectorParser chk filePath) ?f1 (walkRules rootNodes)"
  have 0: "all_emitted chk ?N []" by (simp add: all_emitted_def)
  have 1: "all_emitted chk ?N ?f1"
    by (rule foldl_emitted[OF 0]) (simp add: walkDecls_def analyzeDeclaration_emitted)
  have 2: "all_emitted chk ?N ?f2"
    by (rule foldl_emitted[OF 1]) (simp add: walkRules_def analyzeSelector_emitted)
  have "all_emitted chk ?N (foldl (analyzeAtRule chk filePath) ?f2 (walkAtRules rootNodes))"
    by (rule foldl_emitted[OF 2]) (simp add: walkAtRules_def analyzeAtRule_emitted)
  then show ?thesis by (simp add: css_walks_def Let_def)
qed

lemma addFeature_cases:
  "addFeature chk fid ctx n p fs d = fs \<or>
   (\<exists>u. addFeature chk fid ctx n p fs d = fs @ [u] \<and> js_emitted chk n fid u)"
  by (auto simp: addFeature_def Let_def js_emitted_def split: option.splits)

lemma patternStep_cases:
  "patternStep chk l n p fs (pat, fid, d) = fs \<or>
   (\<exists>u. patternStep chk l n p fs (pat, fid, d) = fs @ [u] \<and> js_emitted chk n fid u)"
  using addFeature_cases[of chk fid l n p fs d] by (simp add: patternStep_def)

lemma analyzeLine_as_fold:
  "analyzeLineForFeatures chk l n p fs = foldl (patternStep chk l n p) fs lineTable"
proof -
  have a: "(\<lambda>acc m. patternStep chk l n p acc
             (methodPattern m, ''array-'' @ m, ''Array.'' @ m @ '' method'')) = arrayStep chk l n p"
    by (intro ext) (simp add: patternStep_def arrayStep_def)
  have s: "(\<lambda>acc m. patternStep chk l n p acc
             (methodPattern m, ''string-'' @ m, ''String.'' @ m @ '' method'')) = stringStep chk l n p"
    by (intro ext) (simp add: patternStep_def stringStep_def)
  have ob: "(\<lambda>acc m. patternStep chk l n p acc
             (objectMethodPattern m, ''object-'' @ m, ''Object.'' @ m @ '' method'')) = objectStep chk l n p"
    by (intro ext) (simp add: patternStep_def objectStep_def)
  show ?thesis
    by (simp only: analyzeLineForFeatures_def lineTable_def Let_def foldl_append foldl_map a s ob)
qed

lemma lineTable_distinct: "distinct (map (fst \<circ> snd) lineTable)"
  by (simp add: lineTable_def arrayMethods_def stringMethods_def objectMethods_def
      syntaxPatterns_def apiPatterns_def)

lemma patternStep_fold:
  assumes "distinct (map (fst \<circ> snd) tbl)" and "distinct (map usage_key fs)"
    and "\<forall>u \<in> set fs. line u = n \<longrightarrow> feature u \<notin> set (map (fst \<circ> snd) tbl)"
  shows "distinct (map usage_key (foldl (patternStep chk l n p) fs tbl)) \<and>
         (\<forall>u \<in> set (foldl (patternStep chk l n p) fs tbl).
            u \<in> set fs \<or> (\<exists>fid. js_emitted chk n fid u))"
  using assms
proof (induction tbl arbitrary: fs)
  case Nil
  then show ?case by simp
next
  case (Cons e tbl)
  obtain pat fid d where e: "e = (pat, fid, d)" by (cases e) auto
  let ?fs' = "patternStep chk l n p fs e"
  from patternStep_cases[of chk l n p fs pat fid d]
  consider "?fs' = fs" | u where "?fs' = fs @ [u]" "js_emitted chk n fid u"
    unfolding e by blast
  then show ?case
  proof cases
    case 1
    have "distinct (map usage_key (foldl (patternStep chk l n p) fs tbl)) \<and>
          (\<forall>u \<in> set (foldl (patternStep chk l n p) fs tbl).
             u \<in> set fs \<or> (\<exists>fid. js_emitted chk n fid u))"
      using Cons.prems by (intro Cons.IH) auto
    then show ?thesis using 1 by simp
  next
    case 2
    have k: "usage_key u = (n, fid)"
      using 2(2) by (simp add: usage_key_def js_emitted_def)
    have "usage_key v \<noteq> usage_key u" if "v \<in> set fs" for v
      using Cons.prems(3) that k e by (auto simp: usage_key_def)
    then have "usage_key u \<notin> set (map usage_key fs)"
      by (metis (no_types, lifting) imageE list.set_map)
    then have d': "distinct (map usage_key (fs @ [u]))"
      using Cons.prems(2) by simp
    have fresh: "\<forall>v \<in> set (fs @ [u]). line v = n \<longrightarrow> feature v \<notin> set (map (fst \<circ> snd) tbl)"
      using Cons.prems(1,3) 2(2) e by (auto simp: js_emitted_def)
    have "distinct (map usage_key (foldl (patternStep chk l n p) (fs @ [u]) tbl)) \<and>
          (\<forall>v \<in> set (foldl (patternStep chk l n p) (fs @ [u]) tbl).
             v \<in> set (fs @ [u]) \<or> (\<exists>fid. js_emitted chk n fid v))"
      using Cons.prems(1) d' fresh by (intro Cons.IH) auto
    then show ?thesis using 2 by auto
  qed
qed

lemma analyzeLine_inv:
  assumes "js_inv chk i fs"
  shows "js_inv chk (i + 1) (analyzeLineForFeatures chk l (i + 1) p fs)"
proof -
  have fresh: "\<forall>u \<in> set fs. line u = i + 1 \<longrightarrow> feature u \<notin> set (map (fst \<circ> snd) lineTable)"
    using assms by (auto simp: js_inv_def)
  have d: "distinct (map usage_key fs)" using assms by (simp add: js_inv_def)
  note r = patternStep_fold[OF lineTable_distinct d fresh, of chk l p]
  show ?thesis
    unfolding analyzeLine_as_fold js_inv_def
  proof (intro conjI ballI)
    show "distinct (map usage_key (foldl (patternStep chk l (i + 1) p) fs lineTable))"
      using r by simp
  next
    fix u assume "u \<in> set (foldl (patternStep chk l (i + 1) p) fs lineTable)"
    then consider "u \<in> set fs" | fid where "js_emitted chk (i + 1) fid u"
      using r by blast
    then show "line u \<le> i + 1"
      using assms by cases (auto simp: js_inv_def js_emitted_def)
  next
    fix u assume "u \<in> set (foldl (patternStep chk l (i + 1) p) fs lineTable)"
    then consider "u \<in> set fs" | fid where "js_emitted chk (i + 1) fid u"
      using r by blast
    then show "\<exists>n fid. js_emitted chk n fid u"
      using assms by cases (auto simp: js_inv_def)
  qed
qed

lemma js_lines_inv:
  "js_inv chk i fs \<Longrightarrow> \<exists>j. js_inv chk j (js_lines chk p i ls fs)"
proof (induction ls arbitrary: i fs)
  case Nil
  then show ?case by auto
next
  case (Cons l ls)
  show ?case using Cons.IH[OF analyzeLine_inv[OF Cons.prems]] by simp
qed

lemma js_analyze_inv: "\<exists>j. js_inv chk j (fa_features (js_analyze chk content filePath))"
  using js_lines_inv[of chk 0 "[]"] by (simp add: js_analyze_def js_inv_def)

lemma distinct_key_filter:
  "distinct (map k xs) \<Longrightarrow> length (filter (\<lambda>u. k u = y) xs) \<le> 1"
proof (induction xs)
  case Nil
  then show ?case by simp
next
  case (Cons x xs)
  show ?case
  proof (cases "k x = y")
    case True
    have "y \<notin> k ` set xs" using Cons.prems True by simp
    then have "\<forall>u \<in> set xs. k u \<noteq> y" by blast
    then have "filter (\<lambda>u. k u = y) xs = []" by (simp add: filter_empty_conv)
    then show ?thesis using True by simp
  next
    case False
    then show ?thesis using Cons by simp
  qed
qed

lemma css_analyze_emitted:
  assumes "u \<in> set (fa_features (css_analyze parse selectorParser chk content filePath))"
  shows "\<exists>rootNodes. parse content filePath = Inr rootNodes \<and>
           css_emitted chk (set (concat (map walk rootNodes))) u"
proof (cases "parse content filePath")
  case (Inl err)
  then show ?thesis using assms by (simp add: css_analyze_def)
next
  case (Inr rootNodes)
  then show ?thesis
    using assms css_walks_emitted[of chk rootNodes selectorParser filePath]
    by (simp add: css_analyze_def all_emitted_def)
qed

lemma sample_css_severities:
  "map severity (fa_features
     (css_analyze sampleParse sampleSelectorParser sampleChecker sampleCss ''a.css'')) =
   [Info, Error, Info, Warning, Warning]"
  by code_simp

lemma sample_js_keys:
  "map usage_key (fa_features (js_analyze sampleChecker sampleScript ''app.js'')) =
   [(1, ''fetch''), (2, ''fetch'')]"
  by code_simp


section \<open>The usages of a stylesheet, call by call\<close>

lemma css_emit_all_simps [simp]:
  "css_emit_all chk p [] = []"
  "css_emit_all chk p (c # cs) = css_emit chk p c @ css_emit_all chk p cs"
  "css_emit_all chk p (cs @ ds) = css_emit_all chk p cs @ css_emit_all chk p ds"
  by (simp_all add: css_emit_all_def)

lemma css_checkFeature_app:
  "css_checkFeature chk fid node fs p ty = fs @ css_emit_all chk p [(fid, node, ty)]"
  by (simp add: css_checkFeature_def css_emit_def Let_def split: option.splits)

lemma foldl_emit:
  assumes "\<And>fs x. f fs x = fs @ css_emit_all chk p (c x)"
  shows "foldl f fs xs = fs @ css_emit_all chk p (concat (map c xs))"
proof (induction xs arbitrary: fs)
  case Nil
  then show ?case by simp
next
  case (Cons x xs)
  have "foldl f fs (x # xs) = foldl f (f fs x) xs" by simp
  also have "\<dots> = f fs x @ css_emit_all chk p (concat (map c xs))" by (rule Cons.IH)
  also have "\<dots> = fs @ css_emit_all chk p (concat (map c (x # xs)))"
    by (simp add: assms[of fs x])
  finally show ?case .
qed

lemma analyzeValue_app:
  "analyzeValue chk v node fs p = fs @ css_emit_all chk p (valueCandidates v node)"
proof -
  have 1: "foldl (functionStep chk node p) fs0 ms =
      fs0 @ css_emit_all chk p (concat (map (\<lambda>m. [(hd m, node, ''function'')]) ms))" for fs0 ms
    by (rule foldl_emit) (simp add: functionStep_def css_checkFeature_app)
  have 2: "foldl (keywordStep chk v node p) fs0 ks =
      fs0 @ css_emit_all chk p
        (concat (map (\<lambda>k. if str_includes v k then [(k, node, ''keyword'')] else []) ks))" for fs0 ks
    by (rule foldl_emit) (simp add: keywordStep_def css_checkFeature_app)
  have 3: "foldl (unitStep chk node p) fs0 ms =
      fs0 @ css_emit_all chk p
        (concat (map (\<lambda>m. if last m \<in> set unitNames then [(last m @ ''-unit'', node, ''unit'')] else [])
           ms))" for fs0 ms
    by (rule foldl_emit) (simp add: unitStep_def css_checkFeature_app)
  show ?thesis
    by (simp only: analyzeValue_def Let_def 1 2 3 valueCandidates_def css_emit_all_simps append_assoc)
qed

lemma analyzeDeclaration_app:
  "analyzeDeclaration chk p fs decl = fs @ css_emit_all chk p (declCandidates decl)"
  by (simp add: analyzeDeclaration_def Let_def declCandidates_def analyzeValue_app
      css_checkFeature_app[of chk _ decl "_ @ _"] css_checkFeature_app[of chk _ decl fs])

lemma analyzeSelector_app:
  "analyzeSelector sp chk p fs rule = fs @ css_emit_all chk p (selectorCandidates sp rule)"
proof (cases "sp (node_selector rule)")
  case None
  then show ?thesis by (simp add: analyzeSelector_def selectorCandidates_def)
next
  case (Some selectors)
  have 1: "foldl (pseudoStep chk rule p) fs0 xs =
      fs0 @ css_emit_all chk p (concat (map (\<lambda>x. [(x, rule, ''pseudo-selector'')]) xs))" for fs0 xs
    by (rule foldl_emit) (simp add: pseudoStep_def css_checkFeature_app)
  have 2: "foldl (attributeStep chk rule p) fs0 xs =
      fs0 @ css_emit_all chk p
        (concat (map (\<lambda>a. if a \<noteq> [] then [(''['' @ a @ '']'', rule, ''attribute-selector'')] else [])
           xs))" for fs0 xs
    by (rule foldl_emit) (simp add: attributeStep_def css_checkFeature_app)
  have 3: "foldl (combinatorStep chk rule p) fs0 xs =
      fs0 @ css_emit_all chk p
        (concat (map (\<lambda>c. if c = ''>>>'' \<or> c = ''/deep/''
                         then [(''deep-combinator'', rule, ''combinator'')] else []) xs))" for fs0 xs
    by (rule foldl_emit) (simp add: combinatorStep_def css_checkFeature_app)
  show ?thesis
    by (simp only: analyzeSelector_def selectorCandidates_def Some option.case Let_def 1 2 3
        css_emit_all_simps append_assoc)
qed

lemma analyzeMediaQuery_app:
  "analyzeMediaQuery chk q node fs p =
     fs @ css_emit_all chk p
       (concat (map (\<lambda>f. if str_includes q f then [(f, node, ''media-feature'')] else [])
          mediaFeatures))"
  unfolding analyzeMediaQuery_def
  by (rule foldl_emit) (simp add: mediaStep_def css_checkFeature_app)

lemma analyzeSupportsQuery_app:
  "analyzeSupportsQuery chk q node fs p =
     fs @ css_emit_all chk p
       (concat (map (\<lambda>m. [(m ! 2, node, ''supports-property'')]) (exec_all propertyRegex q)))"
  unfolding analyzeSupportsQuery_def
  by (rule foldl_emit) (simp add: supportsStep_def css_checkFeature_app)

lemma analyzeAtRule_app:
  "analyzeAtRule chk p fs atRule = fs @ css_emit_all chk p (atRuleCandidates atRule)"
  by (simp add: analyzeAtRule_def Let_def analyzeMediaQuery_app analyzeSupportsQuery_app
      css_checkFeature_app atRuleCandidates_def)

lemma css_walks_app:
  "css_walks sp chk p rootNodes = css_emit_all chk p (css_candidates sp rootNodes)"
proof -
  have 1: "foldl (analyzeDeclaration chk p) fs0 ds =
      fs0 @ css_emit_all chk p (concat (map declCandidates ds))" for fs0 ds
    by (rule foldl_emit) (rule analyzeDeclaration_app)
  have 2: "foldl (analyzeSelector sp chk p) fs0 rs =
      fs0 @ css_emit_all chk p (concat (map (selectorCandidates sp) rs))" for fs0 rs
    by (rule foldl_emit) (rule analyzeSelector_app)
  have 3: "foldl (analyzeAtRule chk p) fs0 as =
      fs0 @ css_emit_all chk p (concat (map atRuleCandidates as))" for fs0 as
    by (rule foldl_emit) (rule analyzeAtRule_app)
  show ?thesis
    by (simp only: css_walks_def Let_def 1 2 3 css_candidates_def css_emit_all_simps
        append_Nil append_assoc)
qed

lemma cand_ok_simps [simp]:
  "cand_ok (f, n, ''function'')" "cand_ok (f, n, ''keyword'')" "cand_ok (f, n, ''unit'')"
  "cand_ok (f, n, ''prefixed-property'')" "cand_ok (f, n, ''attribute-selector'')"
  "cand_ok (f, n, ''combinator'')" "cand_ok (f, n, ''media-feature'')"
  "cand_ok (f, n, ''supports-property'')"
  "cand_ok (f, n, ''property'') = isDecl n" "cand_ok (f, n, ''at-rule'') = isAtRule n"
  "cand_ok (f, n, ''pseudo-selector'') = isRule n"
  by (simp_all add: cand_ok_def)

lemma list_all_concat_map:
  assumes "\<And>x. x \<in> set xs \<Longrightarrow> list_all P (h x)"
  shows "list_all P (concat (map h xs))"
  using assms by (induction xs) simp_all

lemma cand_ok_value: "list_all cand_ok (valueCandidates v node)"
proof -
  have 1: "list_all cand_ok (concat (map (\<lambda>m. [(hd m, node, ''function'')]) ms))" for ms
    by (rule list_all_concat_map) simp
  have 2: "list_all cand_ok
      (concat (map (\<lambda>k. if str_includes v k then [(k, node, ''keyword'')] else []) ks))" for ks
    by (rule list_all_concat_map) simp
  have 3: "list_all cand_ok
      (concat (map (\<lambda>m. if last m \<in> set unitNames then [(last m @ ''-unit'', node, ''unit'')] else [])
         ms))" for ms
    by (rule list_all_concat_map) simp
  show ?thesis unfolding valueCandidates_def list_all_append using 1 2 3 by blast
qed

lemma cand_ok_decl: "isDecl decl \<Longrightarrow> list_all cand_ok (declCandidates decl)"
  by (simp add: declCandidates_def cand_ok_value)

lemma cand_ok_selector: "isRule rule \<Longrightarrow> list_all cand_ok (selectorCandidates sp rule)"
proof (cases "sp (node_selector rule)")
  case None
  then show ?thesis by (simp add: selectorCandidates_def)
next
  case (Some selectors)
  assume r: "isRule rule"
  have 1: "list_all cand_ok (concat (map (\<lambda>x. [(x, rule, ''pseudo-selector'')]) xs))" for xs
    by (rule list_all_concat_map) (simp add: r)
  have 2: "list_all cand_ok
      (concat (map (\<lambda>a. if a \<noteq> [] then [(''['' @ a @ '']'', rule, ''attribute-selector'')] else [])
         xs))" for xs
    by (rule list_all_concat_map) simp
  have 3: "list_all cand_ok
      (concat (map (\<lambda>c. if c = ''>>>'' \<or> c = ''/deep/''
                       then [(''deep-combinator'', rule, ''combinator'')] else []) xs))" for xs
    by (rule list_all_concat_map) simp
  show ?thesis
    unfolding selectorCandidates_def Some option.case list_all_append using 1 2 3 by blast
qed

lemma cand_ok_atRule: "isAtRule atRule \<Longrightarrow> list_all cand_ok (atRuleCandidates atRule)"
proof -
  assume a: "isAtRule atRule"
  have 1: "list_all cand_ok
      (concat (map (\<lambda>f. if str_includes q f then [(f, atRule, ''media-feature'')] else []) xs))"
    for q xs
    by (rule list_all_concat_map) simp
  have 2: "list_all cand_ok
      (concat (map (\<lambda>m. [(m ! 2, atRule, ''supports-property'')]) xs))" for xs
    by (rule list_all_concat_map) simp
  show ?thesis
    using 1 2 by (auto simp add: atRuleCandidates_def a list_all_iff)
qed

lemma cand_ok_all: "list_all cand_ok (css_candidates sp rootNodes)"
proof -
  have 1: "list_all cand_ok (concat (map declCandidates (walkDecls rootNodes)))"
    by (rule list_all_concat_map) (simp add: walkDecls_def cand_ok_decl)
  have 2: "list_all cand_ok (concat (map (selectorCandidates sp) (walkRules rootNodes)))"
    by (rule list_all_concat_map) (simp add: walkRules_def cand_ok_selector)
  have 3: "list_all cand_ok (concat (map atRuleCandidates (walkAtRules rootNodes)))"
    by (rule list_all_concat_map) (simp add: walkAtRules_def cand_ok_atRule)
  show ?thesis unfolding css_candidates_def list_all_append using 1 2 3 by blast
qed

lemma getContext_by_kind:
  assumes "kind_ok ty node"
  shows "(ty = ''property'' \<longrightarrow>
           isDecl node \<and> getContext node ty = node_prop node @ '': '' @ node_value node) \<and>
        (ty = ''at-rule'' \<longrightarrow>
           isAtRule node \<and> getContext node ty = ''@'' @ node_name node @ '' '' @ node_params node) \<and>
        (ty = ''pseudo-selector'' \<longrightarrow>
           isRule node \<and> getContext node ty = ''selector: '' @ node_selector node) \<and>
        (ty \<notin> {''property'', ''at-rule'', ''pseudo-selector''} \<longrightarrow>
           getContext node ty =
             take 100 (node_text node) @ (if length (node_text node) > 100 then ''...'' else []) \<and>
           length (getContext node ty) \<le> 103)"
proof (intro conjI impI)
  assume "ty = ''property''"
  then show "isDecl node" "getContext node ty = node_prop node @ '': '' @ node_value node"
    using assms by (simp_all add: getContext_def)
next
  assume "ty = ''at-rule''"
  then show "isAtRule node"
    "getContext node ty = ''@'' @ node_name node @ '' '' @ node_params node"
    using assms by (simp_all add: getContext_def)
next
  assume "ty = ''pseudo-selector''"
  then show "isRule node" "getContext node ty = ''selector: '' @ node_selector node"
    using assms by (simp_all add: getContext_def)
next
  assume o: "ty \<notin> {''property'', ''at-rule'', ''pseudo-selector''}"
  then show e: "getContext node ty =
      take 100 (node_text node) @ (if length (node_text node) > 100 then ''...'' else [])"
    by (simp add: getContext_def)
  have "length (take 100 (node_text node) @
      (if length (node_text node) > 100 then ''...'' else [])) \<le> 103"
    by simp
  then show "length (getContext node ty) \<le> 103" by (simp only: e)
qed

lemma css_emit_form:
  assumes "cand_ok c"
  shows "(\<not> resolves chk c \<longrightarrow> css_emit chk p c = []) \<and>
         (resolves chk c \<longrightarrow> (\<exists>u. css_emit chk p c = [u] \<and> usage_matches u c))"
proof -
  obtain fid node ty where c: "c = (fid, node, ty)" by (cases c) auto
  have k: "kind_ok ty node" using assms by (simp add: c cand_ok_def)
  show ?thesis
  proof (cases "baseline (checkFeature chk fid)")
    case None
    then show ?thesis by (simp add: c resolves_def css_emit_def css_checkFeature_def)
  next
    case (Some b)
    then have r: "resolves chk c" by (simp add: c resolves_def)
    let ?u = "\<lparr>feature = fid, featureId = fid, usage_file = p,
            line = node_line node, column = node_column node,
            usage_context = getContext node ty,
            usage_baseline = Some b,
            usage_browsers = browsers (checkFeature chk fid),
            severity = css_determineSeverity b (meetsCriteria (checkFeature chk fid)),
            usage_suggestion = suggestion (checkFeature chk fid),
            polyfill = css_getPolyfillSuggestion fid,
            alternative = css_getAlternativeSuggestion fid\<rparr>"
    have e: "css_emit chk p c = [?u]"
      by (simp add: c css_emit_def css_checkFeature_def Some Let_def)
    have m: "usage_matches ?u c"
      unfolding usage_matches_def c using getContext_by_kind[OF k] by simp
    from e m have "\<exists>u. css_emit chk p c = [u] \<and> usage_matches u c" by blast
    with r show ?thesis by simp
  qed
qed

lemma css_emit_all_forms:
  assumes "list_all cand_ok cs"
  shows "list_all2 usage_matches (css_emit_all chk p cs) (filter (resolves chk) cs)"
  using assms
proof (induction cs)
  case Nil
  then show ?case by simp
next
  case (Cons c cs)
  then have ok: "cand_ok c" and IH: "list_all2 usage_matches (css_emit_all chk p cs)
      (filter (resolves chk) cs)"
    by simp_all
  show ?case
  proof (cases "resolves chk c")
    case True
    with css_emit_form[OF ok, of chk p] obtain u where
      "css_emit chk p c = [u]" "usage_matches u c" by blast
    with True IH show ?thesis by simp
  next
    case False
    with css_emit_form[OF ok, of chk p] have "css_emit chk p c = []" by blast
    with False IH show ?thesis by simp
  qed
qed

lemma css_analyze_forms:
  assumes "parse content filePath = Inr rootNodes"
  shows "list_all2 usage_matches
           (fa_features (css_analyze parse selectorParser chk content filePath))
           (filter (resolves chk) (css_candidates selectorParser rootNodes))"
  using css_emit_all_forms[OF cand_ok_all, of chk filePath selectorParser rootNodes] assms
  by (simp add: css_analyze_def css_walks_app)

lemma prefixed_candidates:
  "filter (\<lambda>(fid, node, ty). baseline (checkFeature sampleChecker fid) \<noteq> None)
     (css_candidates plainSelectorParser prefixedTree) =
   [(''-webkit-transition'', prefixedDecl, ''property''),
    (''transition'', prefixedDecl, ''prefixed-property'')]"
  by code_simp


section \<open>Properties of the extractors\<close>

text \<open>
  C3. Every usage either extractor emits has a tier, the tier the checker gives for its
  token, and its severity follows one rule: info when the checker says the criteria are
  met, otherwise error for the tier limited and warning for any other tier.
\<close>

theorem severity_follows_rule:
  "(\<forall>u \<in> set (fa_features (css_analyze parse selectorParser chk content filePath)).
      \<exists>t. usage_baseline u = Some t \<and>
          baseline (checkFeature chk (featureId u)) = Some t \<and>
          severity u = severity_rule t (meetsCriteria (checkFeature chk (featureId u)))) \<and>
   (\<forall>u \<in> set (fa_features (js_analyze chk script scriptPath)).
      \<exists>t. usage_baseline u = Some t \<and>
          baseline (checkFeature chk (featureId u)) = Some t \<and>
          severity u = severity_rule t (meetsCriteria (checkFeature chk (featureId u))))"
proof (intro conjI ballI)
  fix u assume "u \<in> set (fa_features (css_analyze parse selectorParser chk content filePath))"
  from css_analyze_emitted[OF this] obtain N where "css_emitted chk N u" by blast
  then obtain b where b: "baseline (checkFeature chk (featureId u)) = Some b"
    "usage_baseline u = Some b"
    "severity u = css_determineSeverity b (meetsCriteria (checkFeature chk (featureId u)))"
    unfolding css_emitted_def by blast
  have "css_determineSeverity b m = severity_rule b m" for m
    by (simp add: css_determineSeverity_def severity_rule_def)
  with b have "usage_baseline u = Some b \<and>
          baseline (checkFeature chk (featureId u)) = Some b \<and>
          severity u = severity_rule b (meetsCriteria (checkFeature chk (featureId u)))"
    by simp
  then show "\<exists>t. usage_baseline u = Some t \<and>
          baseline (checkFeature chk (featureId u)) = Some t \<and>
          severity u = severity_rule t (meetsCriteria (checkFeature chk (featureId u)))" ..
next
  fix u assume u: "u \<in> set (fa_features (js_analyze chk script scriptPath))"
  obtain j where "js_inv chk j (fa_features (js_analyze chk script scriptPath))"
    using js_analyze_inv by blast
  with u obtain n fid where "js_emitted chk n fid u"
    unfolding js_inv_def by blast
  then obtain b where f: "featureId u = fid"
    and b: "baseline (checkFeature chk fid) = Some b" "usage_baseline u = Some b"
    "severity u = js_determineSeverity b (meetsCriteria (checkFeature chk fid))"
    unfolding js_emitted_def by blast
  have "js_determineSeverity b m = severity_rule b m" for m
    by (simp add: js_determineSeverity_def severity_rule_def)
  with b f have "usage_baseline u = Some b \<and>
          baseline (checkFeature chk (featureId u)) = Some b \<and>
          severity u = severity_rule b (meetsCriteria (checkFeature chk (featureId u)))"
    by simp
  then show "\<exists>t. usage_baseline u = Some t \<and>
          baseline (checkFeature chk (featureId u)) = Some t \<and>
          severity u = severity_rule t (meetsCriteria (checkFeature chk (featureId u)))" ..
qed

theorem severity_follows_rule_witness:
  "map severity (fa_features
     (css_analyze sampleParse sampleSelectorParser sampleChecker sampleCss ''a.css'')) =
     [Info, Error, Info, Warning, Warning] \<and>
   (\<exists>t. usage_baseline (hd (fa_features
            (css_analyze sampleParse sampleSelectorParser sampleChecker sampleCss ''a.css''))) = Some t \<and>
        severity (hd (fa_features
            (css_analyze sampleParse sampleSelectorParser sampleChecker sampleCss ''a.css''))) =
          severity_rule t (meetsCriteria (checkFeature sampleChecker (featureId (hd (fa_features
            (css_analyze sampleParse sampleSelectorParser sampleChecker sampleCss ''a.css''))))))) \<and>
   (\<exists>t. usage_baseline (hd (fa_features (js_analyze sampleChecker sampleScript ''app.js''))) = Some t \<and>
        severity (hd (fa_features (js_analyze sampleChecker sampleScript ''app.js''))) =
          severity_rule t (meetsCriteria (checkFeature sampleChecker (featureId (hd (fa_features
            (js_analyze sampleChecker sampleScript ''app.js'')))))))"
proof -
  let ?css = "fa_features (css_analyze sampleParse sampleSelectorParser sampleChecker sampleCss ''a.css'')"
  let ?js = "fa_features (js_analyze sampleChecker sampleScript ''app.js'')"
  have "?css \<noteq> []" using sample_css_severities by auto
  then have c: "hd ?css \<in> set ?css" by simp
  have "?js \<noteq> []" using sample_js_keys by auto
  then have j: "hd ?js \<in> set ?js" by simp
  note r = severity_follows_rule[of sampleParse sampleSelectorParser sampleChecker sampleCss
      "''a.css''" sampleScript "''app.js''"]
  note r1 = r[THEN conjunct1, THEN bspec, OF c]
  note r2 = r[THEN conjunct2, THEN bspec, OF j]
  from r1 obtain t1 where "usage_baseline (hd ?css) = Some t1"
    "severity (hd ?css) =
       severity_rule t1 (meetsCriteria (checkFeature sampleChecker (featureId (hd ?css))))"
    by blast
  moreover from r2 obtain t2 where "usage_baseline (hd ?js) = Some t2"
    "severity (hd ?js) =
       severity_rule t2 (meetsCriteria (checkFeature sampleChecker (featureId (hd ?js))))"
    by blast
  ultimately show ?thesis using sample_css_severities by blast
qed

text \<open>
  C7. In the output of the line-based script extractor no pair of line number and feature
  token occurs on more than one usage, and every usage has column 0.
\<close>

theorem js_one_usage_per_line_and_token:
  "(\<forall>n t. length (filter (\<lambda>u. line u = n \<and> feature u = t)
              (fa_features (js_analyze chk content filePath))) \<le> 1) \<and>
   (\<forall>u \<in> set (fa_features (js_analyze chk content filePath)). column u = 0)"
proof -
  obtain j where inv: "js_inv chk j (fa_features (js_analyze chk content filePath))"
    using js_analyze_inv by blast
  then have d: "distinct (map usage_key (fa_features (js_analyze chk content filePath)))"
    by (simp add: js_inv_def)
  have "length (filter (\<lambda>u. line u = n \<and> feature u = t)
          (fa_features (js_analyze chk content filePath))) \<le> 1" for n t
    using distinct_key_filter[OF d, of "(n, t)"] by (simp add: usage_key_def)
  moreover have "\<forall>u \<in> set (fa_features (js_analyze chk content filePath)). column u = 0"
    using inv by (auto simp: js_inv_def js_emitted_def)
  ultimately show ?thesis by blast
qed

theorem js_one_usage_per_line_and_token_witness:
  "map usage_key (fa_features (js_analyze sampleChecker sampleScript ''app.js'')) =
     [(1, ''fetch''), (2, ''fetch'')] \<and>
   length (filter (\<lambda>u. line u = 1 \<and> feature u = ''fetch'')
     (fa_features (js_analyze sampleChecker sampleScript ''app.js''))) \<le> 1 \<and>
   column (hd (fa_features (js_analyze sampleChecker sampleScript ''app.js''))) = 0"
proof -
  let ?js = "fa_features (js_analyze sampleChecker sampleScript ''app.js'')"
  have "?js \<noteq> []" using sample_js_keys by auto
  then have j: "hd ?js \<in> set ?js" by simp
  note r = js_one_usage_per_line_and_token[of sampleChecker sampleScript "''app.js''"]
  have "length (filter (\<lambda>u. line u = 1 \<and> feature u = ''fetch'') ?js) \<le> 1"
    using r[THEN conjunct1] by blast
  moreover have "column (hd ?js) = 0"
    using r[THEN conjunct2, THEN bspec, OF j] .
  ultimately show ?thesis using sample_js_keys by simp
qed

text \<open>
  C9. When the stylesheet parser fails on the text, the extractor still returns the analysis
  of the file, with no usage in it: the failure stays inside \<open>analyze\<close>.
\<close>

theorem css_parse_failure_gives_no_usage:
  assumes "parse content filePath = Inl err"
  shows "css_analyze parse selectorParser chk content filePath =
           \<lparr>fa_file = filePath, fa_type = CssFile, fa_features = []\<rparr>"
  using assms by (simp add: css_analyze_def)

theorem css_parse_failure_gives_no_usage_witness:
  "sampleParse ''.a{'' ''broken.css'' = Inl (CssSyntaxError ''Unclosed block'') \<and>
   css_analyze sampleParse sampleSelectorParser sampleChecker ''.a{'' ''broken.css'' =
     \<lparr>fa_file = ''broken.css'', fa_type = CssFile, fa_features = []\<rparr>"
proof -
  have h: "sampleParse ''.a{'' ''broken.css'' = Inl (CssSyntaxError ''Unclosed block'')"
    by (simp add: sampleParse_def sampleCss_def)
  show ?thesis
    using css_parse_failure_gives_no_usage[of sampleParse "''.a{''" "''broken.css''"
        "CssSyntaxError ''Unclosed block''" sampleSelectorParser sampleChecker] h
    by simp
qed

text \<open>
  C6, as the code has it. The usages of a parsed stylesheet are, in order, those of the
  calls of \<open>checkFeature\<close> whose token resolves, and the context of each follows the kind
  of its call: a property candidate carries the whole \<open>prop: value\<close> of its declaration, an
  at-rule candidate the whole \<open>@name params\<close> of its at-rule, a pseudo-selector candidate
  the whole \<open>selector: \<close> text of its rule, none of them truncated; a candidate of any
  other kind carries the first 100 characters of the node's text, followed by \<open>...\<close> when
  the text is longer, which is at most 103 characters.
\<close>

theorem css_context_forms:
  assumes "parse content filePath = Inr rootNodes"
  shows "list_all2
           (\<lambda>u (fid, node, ty).
              featureId u = fid \<and> line u = node_line node \<and> column u = node_column node \<and>
              (ty = ''property'' \<longrightarrow>
                 isDecl node \<and> usage_context u = node_prop node @ '': '' @ node_value node) \<and>
              (ty = ''at-rule'' \<longrightarrow>
                 isAtRule node \<and>
                 usage_context u = ''@'' @ node_name node @ '' '' @ node_params node) \<and>
              (ty = ''pseudo-selector'' \<longrightarrow>
                 isRule node \<and> usage_context u = ''selector: '' @ node_selector node) \<and>
              (ty \<notin> {''property'', ''at-rule'', ''pseudo-selector''} \<longrightarrow>
                 usage_context u =
                   take 100 (node_text node) @
                   (if length (node_text node) > 100 then ''...'' else []) \<and>
                 length (usage_context u) \<le> 103))
           (fa_features (css_analyze parse selectorParser chk content filePath))
           (filter (\<lambda>(fid, node, ty). baseline (checkFeature chk fid) \<noteq> None)
              (css_candidates selectorParser rootNodes))"
proof -
  have m: "(\<lambda>u (fid, node, ty).
              featureId u = fid \<and> line u = node_line node \<and> column u = node_column node \<and>
              (ty = ''property'' \<longrightarrow>
                 isDecl node \<and> usage_context u = node_prop node @ '': '' @ node_value node) \<and>
              (ty = ''at-rule'' \<longrightarrow>
                 isAtRule node \<and>
                 usage_context u = ''@'' @ node_name node @ '' '' @ node_params node) \<and>
              (ty = ''pseudo-selector'' \<longrightarrow>
                 isRule node \<and> usage_context u = ''selector: '' @ node_selector node) \<and>
              (ty \<notin> {''property'', ''at-rule'', ''pseudo-selector''} \<longrightarrow>
                 usage_context u =
                   take 100 (node_text node) @
                   (if length (node_text node) > 100 then ''...'' else []) \<and>
                 length (usage_context u) \<le> 103)) = usage_matches"
    by (intro ext) (simp only: usage_matches_def)
  have r: "(\<lambda>(fid, node, ty). baseline (checkFeature chk fid) \<noteq> None) = resolves chk"
    by (intro ext) (simp only: resolves_def)
  show ?thesis
    unfolding m r
    by (rule css_analyze_forms[of parse content filePath rootNodes selectorParser chk])
      (rule assms)
qed

theorem css_context_forms_witness:
  "prefixedParse prefixedCss ''b.css'' = Inr prefixedTree \<and>
   map usage_context (fa_features
     (css_analyze prefixedParse plainSelectorParser sampleChecker prefixedCss ''b.css'')) =
   [''-webkit-transition: '' @ sampleValue,
    take 100 (''-webkit-transition:'' @ sampleValue) @ ''...''] \<and>
   map (length \<circ> usage_context) (fa_features
     (css_analyze prefixedParse plainSelectorParser sampleChecker prefixedCss ''b.css'')) =
   [136, 103]"
proof -
  let ?fs = "fa_features
     (css_analyze prefixedParse plainSelectorParser sampleChecker prefixedCss ''b.css'')"
  have p: "prefixedParse prefixedCss ''b.css'' = Inr prefixedTree"
    by (simp add: prefixedParse_def)
  note t = css_context_forms[of prefixedParse prefixedCss "''b.css''" prefixedTree
      plainSelectorParser sampleChecker, OF p, unfolded prefixed_candidates]
  from t obtain u1 u2 where fs: "?fs = [u1, u2]"
    and c1: "usage_context u1 = node_prop prefixedDecl @ '': '' @ node_value prefixedDecl"
    and c2: "usage_context u2 =
        take 100 (node_text prefixedDecl) @
        (if length (node_text prefixedDecl) > 100 then ''...'' else [])"
    by (auto simp add: list_all2_Cons2)
  have l: "length (node_text prefixedDecl) = 135"
    by (simp add: prefixedDecl_def sampleValue_def)
  have c1': "usage_context u1 = ''-webkit-transition: '' @ sampleValue"
    using c1 by (simp add: prefixedDecl_def)
  have c2': "usage_context u2 = take 100 (''-webkit-transition:'' @ sampleValue) @ ''...''"
    using c2 l by (simp add: prefixedDecl_def)
  have n1: "length (usage_context u1) = 136" by (simp add: c1' sampleValue_def)
  have n2: "length (usage_context u2) = 103" by (simp add: c2' sampleValue_def)
  show ?thesis using p fs c1' c2' n1 n2 by simp
qed

text \<open>C6 as the specification has it, a bound of 100 characters on every context, fails:
  the first usage of the sample stylesheet carries the whole declaration, 128 characters.\<close>

theorem css_context_longer_than_100:
  "map (length \<circ> usage_context) (fa_features
     (css_analyze sampleParse sampleSelectorParser sampleChecker sampleCss ''a.css'')) =
   [128, 26, 13, 28, 28]"
  by code_simp


section \<open>Rounding of doubles\<close>

lemma expo_lower:
  assumes "0 < x"
  shows "2 powi (expo x) \<le> x"
proof -
  obtain p q where pq: "quotient_of x = (p, q)" by (cases "quotient_of x") auto
  have q: "0 < q" using quotient_of_denom_pos[OF pq] .
  have x: "x = of_int p / of_int q" using quotient_of_div[OF pq] .
  have p: "0 < p" using assms q x by (simp add: zero_less_divide_iff)
  define k where "k = bitlen p - bitlen q"
  have e: "expo x = (if 2 powi k \<le> x then k else k - 1)"
    by (simp add: expo_def pq k_def Let_def)
  show ?thesis
  proof (cases "2 powi k \<le> x")
    case True
    then show ?thesis by (simp add: e)
  next
    case False
    have bp: "1 \<le> bitlen p" using p by (simp add: bitlen_alt_def)
    have bq: "0 \<le> bitlen q" by (rule bitlen_nonneg)
    have "(2::int) ^ nat (bitlen p - 1) \<le> p" using bitlen_bounds[OF p] by simp
    then have "(of_int ((2::int) ^ nat (bitlen p - 1)) :: rat) \<le> of_int p"
      by (simp only: of_int_le_iff)
    then have A: "(2::rat) powi (bitlen p - 1) \<le> of_int p"
      using bp by (simp add: power_int_nonneg_exp)
    have "q < (2::int) ^ nat (bitlen q)" using bitlen_bounds[OF q] by simp
    then have "(of_int q :: rat) < of_int ((2::int) ^ nat (bitlen q))"
      by (simp only: of_int_less_iff)
    then have B: "(of_int q :: rat) \<le> 2 powi (bitlen q)"
      using bq by (simp add: power_int_nonneg_exp)
    have "(2::rat) powi (k - 1) = 2 powi (bitlen p - 1) / 2 powi (bitlen q)"
      unfolding k_def using power_int_diff[of "2::rat" "bitlen p - 1" "bitlen q"]
      by (simp add: algebra_simps)
    also have "\<dots> \<le> of_int p / of_int q"
      using A B q p by (intro frac_le) auto
    finally have "2 powi (k - 1) \<le> x" unfolding x .
    then show ?thesis using False by (simp add: e)
  qed
qed

lemma rne_error: "\<bar>of_int (rne y) - y\<bar> \<le> 1 / 2"
proof -
  define f where "f = \<lfloor>y\<rfloor>"
  define d where "d = y - of_int f"
  have d: "0 \<le> d" "d < 1" unfolding d_def f_def by linarith+
  have y: "y = of_int f + d" by (simp add: d_def)
  have r: "rne y = (if d < 1 / 2 then f else if 1 / 2 < d then f + 1
                    else if even f then f else f + 1)"
    by (simp add: rne_def Let_def f_def d_def)
  consider "d < 1 / 2" | "1 / 2 < d" | "d = 1 / 2" by linarith
  then show ?thesis
  proof cases
    case 1
    then have "rne y = f" by (simp add: r)
    then have "of_int (rne y) - y = - d" by (simp add: d_def)
    then show ?thesis using d 1 by simp
  next
    case 2
    then have "rne y = f + 1" by (simp add: r)
    then have "of_int (rne y) - y = 1 - d" by (simp add: d_def)
    then show ?thesis using d 2 by simp
  next
    case 3
    then have "rne y = f \<or> rne y = f + 1" by (simp add: r)
    then have "of_int (rne y) - y = - d \<or> of_int (rne y) - y = 1 - d"
      by (auto simp add: d_def)
    then show ?thesis using 3 by auto
  qed
qed

lemma rne_of_int [simp]: "rne (of_int n) = n"
  by (simp add: rne_def Let_def)

lemma fl_pos_error:
  "\<bar>fl_pos x - x\<bar> \<le> 2 powi (expo x - 53)"
proof -
  define e where "e = expo x"
  define y where "y = x * 2 powi (52 - e)"
  have xy: "x = y * 2 powi (e - 52)"
    by (simp add: y_def flip: power_int_add)
  have "fl_pos x - x = (of_int (rne y) - y) * 2 powi (e - 52)"
    unfolding fl_pos_def e_def[symmetric] y_def[symmetric] using xy
    by (simp add: algebra_simps)
  then have "\<bar>fl_pos x - x\<bar> = \<bar>of_int (rne y) - y\<bar> * 2 powi (e - 52)"
    by (simp add: abs_mult)
  also have "\<dots> \<le> (1 / 2) * 2 powi (e - 52)"
    by (intro mult_right_mono rne_error) simp
  also have "\<dots> = 2 powi (e - 53)"
    using power_int_diff[of "2::rat" "e - 52" 1] by simp
  finally show ?thesis by (simp add: e_def)
qed

lemma fl_pos_exact:
  assumes "x * 2 powi (52 - expo x) = of_int m"
  shows "fl_pos x = x"
proof -
  have "fl_pos x = of_int m * 2 powi (expo x - 52)"
    by (simp add: fl_pos_def assms)
  also have "\<dots> = x * (2 powi (52 - expo x) * 2 powi (expo x - 52))"
    by (simp add: assms[symmetric] mult.assoc)
  also have "\<dots> = x" by (simp flip: power_int_add)
  finally show ?thesis .
qed

lemma expo_less:
  assumes "0 < x" "x < 2 powi n"
  shows "expo x < n"
proof (rule ccontr)
  assume "\<not> expo x < n"
  then have "n \<le> expo x" by simp
  then have "(2::rat) powi n \<le> 2 powi (expo x)" by (intro power_int_increasing) auto
  with expo_lower[OF assms(1)] assms(2) show False by simp
qed

lemma fl_half_int:
  assumes "0 < m" "of_int m / 2 < (2::rat) ^ 52"
  shows "fl (of_int m / 2) = of_int m / 2"
proof -
  let ?x = "of_int m / 2 :: rat"
  have pos: "0 < ?x" using assms by simp
  have "expo ?x < 52" using expo_less[OF pos, of 52] assms(2) by simp
  then have j: "52 - expo ?x = int (Suc (nat (51 - expo ?x)))"
    by simp
  define j where "j = nat (51 - expo ?x)"
  note j = j[folded j_def]
  have "(2::rat) powi (52 - expo ?x) = 2 ^ Suc j"
    unfolding j by (rule power_int_of_nat)
  then have "?x * 2 powi (52 - expo ?x) = of_int (m * 2 ^ j)"
    by simp
  from fl_pos_exact[OF this] show ?thesis using pos by (simp add: fl_def)
qed


lemma fl_of_nat:
  assumes "n < 2 ^ 52"
  shows "fl (of_nat n) = of_nat n"
proof (cases "n = 0")
  case True
  then show ?thesis by (simp add: fl_def)
next
  case False
  have "(of_nat n :: rat) < 2 ^ 52"
    using assms by (metis of_nat_less_iff of_nat_numeral of_nat_power)
  then have "of_int (2 * int n) / 2 < (2::rat) ^ 52" by simp
  from fl_half_int[OF _ this] False show ?thesis by simp
qed

text \<open>Dividing two counts and rounding: the double division does not move the result
  across a rounding boundary.\<close>

lemma round_fl_div:
  fixes S n :: nat
  assumes n: "0 < n" "n < 2 ^ 32" and S: "0 < S" "S \<le> 100 * n"
  shows "Math_round (fl (of_nat S / of_nat n)) = round (of_nat S / of_nat n :: rat)"
proof -
  define x :: rat where "x = of_nat S / of_nat n"
  define k where "k = round x"
  have xpos: "0 < x" using n S by (simp add: x_def)
  have "of_nat S \<le> (of_nat (100 * n) :: rat)" using S(2) by (simp only: of_nat_le_iff)
  then have x100: "x \<le> 100" using n by (simp add: x_def field_simps)
  have k1: "of_int k \<le> x + 1 / 2" and k2: "x + 1 / 2 < of_int k + 1"
    unfolding k_def round_def by linarith+
  have goal: "of_int k \<le> fl x + 1 / 2 \<and> fl x + 1 / 2 < of_int k + 1"
  proof (cases "x + 1 / 2 = of_int k")
    case True
    then have xk: "x = of_int (2 * k - 1) / 2" by (simp add: field_simps)
    have "0 < (of_int (2 * k - 1) :: rat)" using xpos xk by simp
    then have mpos: "0 < 2 * k - 1" by (simp only: of_int_0_less_iff)
    have "of_int (2 * k - 1) / 2 < (2::rat) ^ 52" using x100 xk by simp
    from fl_half_int[OF mpos this] have "fl x = x" by (simp add: xk)
    then show ?thesis using True by simp
  next
    case False
    have npos: "(0::rat) < of_nat n" using n by simp
    have xn: "x * of_nat n = of_nat S" using n by (simp add: x_def)
    \<comment> \<open>the distance to either boundary is a positive multiple of 1 / (2 n)\<close>
    have lo: "1 / (2 * of_nat n) \<le> x + 1 / 2 - of_int k"
    proof -
      have "0 < (x + 1 / 2 - of_int k) * (2 * of_nat n)"
        using False k1 npos by (intro mult_pos_pos) auto
      also have "(x + 1 / 2 - of_int k) * (2 * of_nat n) =
          of_int (2 * int S + int n - 2 * k * int n)"
        using xn by (simp add: algebra_simps)
      finally have "0 < (of_int (2 * int S + int n - 2 * k * int n) :: rat)" .
      then have "0 < 2 * int S + int n - 2 * k * int n" by (simp only: of_int_0_less_iff)
      then have "1 \<le> 2 * int S + int n - 2 * k * int n" by simp
      then have "(1::rat) \<le> of_int (2 * int S + int n - 2 * k * int n)"
        by (simp only: of_int_1_le_iff)
      also have "\<dots> = (x + 1 / 2 - of_int k) * (2 * of_nat n)"
        using xn by (simp add: algebra_simps)
      finally show ?thesis using npos by (simp add: field_simps)
    qed
    have hi: "1 / (2 * of_nat n) \<le> of_int k + 1 - (x + 1 / 2)"
    proof -
      have "0 < (of_int k + 1 - (x + 1 / 2)) * (2 * of_nat n)"
        using k2 npos by (intro mult_pos_pos) auto
      also have "(of_int k + 1 - (x + 1 / 2)) * (2 * of_nat n) =
          of_int (2 * k * int n + int n - 2 * int S)"
        using xn by (simp add: algebra_simps)
      finally have "0 < (of_int (2 * k * int n + int n - 2 * int S) :: rat)" .
      then have "0 < 2 * k * int n + int n - 2 * int S" by (simp only: of_int_0_less_iff)
      then have "1 \<le> 2 * k * int n + int n - 2 * int S" by simp
      then have "(1::rat) \<le> of_int (2 * k * int n + int n - 2 * int S)"
        by (simp only: of_int_1_le_iff)
      also have "\<dots> = (of_int k + 1 - (x + 1 / 2)) * (2 * of_nat n)"
        using xn by (simp add: algebra_simps)
      finally show ?thesis using npos by (simp add: field_simps)
    qed
    define g :: rat where "g = 1 / (2 * of_nat n)"
    define eps :: rat where "eps = 1 / 2 ^ 46"
    have "(of_nat n :: rat) < 2 ^ 32"
      using n(2) by (metis of_nat_less_iff of_nat_numeral of_nat_power)
    then have "2 * (of_nat n :: rat) < 2 ^ 33" by simp
    then have "1 / (2 ^ 33 :: rat) < 1 / (2 * of_nat n)"
      using npos by (intro divide_strict_left_mono) auto
    moreover have "(1::rat) / 2 ^ 46 < 1 / 2 ^ 33" by simp
    ultimately have lt: "eps < g" unfolding g_def eps_def by (rule less_trans[rotated])
    have "expo x < 7" using expo_less[OF xpos, of 7] x100 by simp
    then have "expo x - 53 \<le> - 46" by simp
    then have "(2::rat) powi (expo x - 53) \<le> 2 powi (- 46)"
      by (intro power_int_increasing) auto
    also have "(2::rat) powi (- 46) = eps"
      by (simp add: eps_def power_int_minus_divide)
    finally have "\<bar>fl_pos x - x\<bar> \<le> eps"
      using fl_pos_error[of x] by linarith
    then have err: "\<bar>fl x - x\<bar> \<le> eps" using xpos by (simp add: fl_def)
    have e1: "fl x - x \<le> eps" using abs_le_D1[OF err] .
    have e2: "- (fl x - x) \<le> eps" using abs_le_D2[OF err] .
    have lo': "g \<le> x + 1 / 2 - of_int k" using lo by (simp only: g_def)
    have hi': "g \<le> of_int k + 1 - (x + 1 / 2)" using hi by (simp only: g_def)
    show ?thesis using e1 e2 lt lo' hi' by linarith
  qed
  then have "\<lfloor>fl x + 1 / 2\<rfloor> = k" by (simp add: floor_unique)
  then show ?thesis by (simp add: Math_round_def k_def x_def)
qed


section \<open>Properties of the scores\<close>

lemma tierScore_of_nat: "tierScore b = of_nat (specPoints b)"
  by (simp add: tierScore_def specPoints_def split: option.splits tier.splits)

lemma specPoints_bounds: "25 \<le> specPoints b" "specPoints b \<le> 100"
  by (simp_all add: specPoints_def split: option.splits tier.splits)

lemma sum_scores_exact:
  assumes "A + 100 * length fs < 2 ^ 52"
  shows "foldl (\<lambda>sum score. js_add sum score) (of_nat A)
           (map (\<lambda>f. tierScore (usage_baseline f)) fs) =
         of_nat (A + sum_list (map (\<lambda>f. specPoints (usage_baseline f)) fs))"
  using assms
proof (induction fs arbitrary: A)
  case Nil
  then show ?case by simp
next
  case (Cons f fs)
  let ?p = "specPoints (usage_baseline f)"
  have p: "?p \<le> 100" by (rule specPoints_bounds)
  have lt: "A + ?p < 2 ^ 52" using Cons.prems p by simp
  have "js_add (of_nat A) (tierScore (usage_baseline f)) = fl (of_nat (A + ?p))"
    by (simp add: js_add_def tierScore_of_nat)
  also have "\<dots> = of_nat (A + ?p)" by (rule fl_of_nat[OF lt])
  finally have step: "js_add (of_nat A) (tierScore (usage_baseline f)) = of_nat (A + ?p)" .
  have "(A + ?p) + 100 * length fs < 2 ^ 52" using Cons.prems p by simp
  from Cons.IH[OF this] show ?case by (simp add: step add.assoc)
qed

lemma sum_points_bounds:
  "25 * length fs \<le> sum_list (map (\<lambda>f. specPoints (usage_baseline f)) fs)"
  "sum_list (map (\<lambda>f. specPoints (usage_baseline f)) fs) \<le> 100 * length fs"
proof (induction fs)
  case Nil
  case 1 show ?case by simp
  case 2 show ?case by simp
next
  case (Cons f fs)
  case 1 show ?case using Cons.IH(1) specPoints_bounds(1)[of "usage_baseline f"] by simp
  case 2 show ?case using Cons.IH(2) specPoints_bounds(2)[of "usage_baseline f"] by simp
qed

lemma score_refines:
  assumes "length fs < 2 ^ 32"
  shows "calculateCompatibilityScore fs = specCompatibilityScore fs"
proof (cases "fs = []")
  case True
  then show ?thesis by (simp add: calculateCompatibilityScore_def specCompatibilityScore_def)
next
  case False
  let ?S = "sum_list (map (\<lambda>f. specPoints (usage_baseline f)) fs)"
  let ?n = "length fs"
  have n: "0 < ?n" using False by simp
  have "0 + 100 * ?n < 100 * 2 ^ 32" using assms by simp
  also have "\<dots> < (2::nat) ^ 52" by simp
  finally have "0 + 100 * ?n < 2 ^ 52" .
  from sum_scores_exact[OF this]
  have sum: "foldl (\<lambda>sum score. js_add sum score) 0
           (map (\<lambda>f. tierScore (usage_baseline f)) fs) = of_nat ?S"
    by simp
  have "25 * ?n \<le> ?S" by (rule sum_points_bounds(1))
  with n have S1: "0 < ?S" by linarith
  have S2: "?S \<le> 100 * ?n" by (rule sum_points_bounds(2))
  note S = S1 S2
  have "calculateCompatibilityScore fs = Math_round (fl (of_nat ?S / of_nat ?n))"
    using False by (simp add: calculateCompatibilityScore_def Let_def sum js_div_def)
  also have "\<dots> = round (of_nat ?S / of_nat ?n :: rat)"
    by (rule round_fl_div[OF n assms S])
  finally show ?thesis using False by (simp add: specCompatibilityScore_def)
qed

text \<open>
  C4. For every list of usages an array can hold (fewer than \<open>2\<^sup>3\<^sup>2\<close>), the compatibility
  score is the rounded mean of the points 100, 75, 25 and 50 for the tiers widely-available,
  newly-available, limited and none, and 100 for the empty list. So the empty list scores
  100, two widely-available usages score 100 and one limited usage scores 25.
\<close>

theorem compatibilityScore_is_rounded_mean:
  "(length fs < 2 ^ 32 \<longrightarrow> calculateCompatibilityScore fs = specCompatibilityScore fs) \<and>
   calculateCompatibilityScore [] = 100 \<and>
   (usage_baseline u = Some WidelyAvailable \<and> usage_baseline v = Some WidelyAvailable \<longrightarrow>
      calculateCompatibilityScore [u, v] = 100) \<and>
   (usage_baseline w = Some Limited \<longrightarrow> calculateCompatibilityScore [w] = 25)"
proof (intro conjI impI)
  assume "length fs < 2 ^ 32"
  then show "calculateCompatibilityScore fs = specCompatibilityScore fs" by (rule score_refines)
next
  show "calculateCompatibilityScore [] = 100" by (simp add: calculateCompatibilityScore_def)
next
  assume "usage_baseline u = Some WidelyAvailable \<and> usage_baseline v = Some WidelyAvailable"
  then have "specCompatibilityScore [u, v] = 100"
    by (simp add: specCompatibilityScore_def specPoints_def)
  then show "calculateCompatibilityScore [u, v] = 100"
    using score_refines[of "[u, v]"] by simp
next
  assume "usage_baseline w = Some Limited"
  then have "specCompatibilityScore [w] = 25"
    by (simp add: specCompatibilityScore_def specPoints_def)
  then show "calculateCompatibilityScore [w] = 25"
    using score_refines[of "[w]"] by simp
qed

theorem compatibilityScore_is_rounded_mean_witness:
  "calculateCompatibilityScore
     [sampleUsage (Some WidelyAvailable) Info, sampleUsage (Some NewlyAvailable) Warning,
      sampleUsage (Some Limited) Error] = 67 \<and>
   calculateCompatibilityScore
     [sampleUsage (Some WidelyAvailable) Info, sampleUsage (Some WidelyAvailable) Info] = 100 \<and>
   calculateCompatibilityScore [sampleUsage (Some Limited) Error] = 25"
proof -
  let ?fs = "[sampleUsage (Some WidelyAvailable) Info, sampleUsage (Some NewlyAvailable) Warning,
      sampleUsage (Some Limited) Error]"
  note r = compatibilityScore_is_rounded_mean[of ?fs "sampleUsage (Some WidelyAvailable) Info"
      "sampleUsage (Some WidelyAvailable) Info" "sampleUsage (Some Limited) Error"]
  have "round (200 / 3 :: rat) = 67" by code_simp
  then have "specCompatibilityScore ?fs = 67"
    by (simp add: specCompatibilityScore_def specPoints_def sampleUsage_def)
  then show ?thesis using r by (simp add: sampleUsage_def)
qed

text \<open>
  C8. The risk score of the JSON report is computed in doubles as
  \<open>Math.round((totalRisk / maxPossibleRisk) * 100)\<close>. For 23 errors and no warning among 40
  usages the quotient 69 / 120 is not a double; its nearest double times 100 rounds to a
  double just below 57.5, so the code returns 57, while the ratio of the specification,
  exactly 57.5, rounds to 58.
\<close>

theorem riskScore_below_tie:
  "totalFeatures (generateReport [riskAnalysis]) = 40 \<and>
   errors (summary (generateReport [riskAnalysis])) = 23 \<and>
   warnings (summary (generateReport [riskAnalysis])) = 0 \<and>
   calculateRiskScore (generateReport [riskAnalysis]) = 57 \<and>
   specRiskScore (generateReport [riskAnalysis]) = 58"
proof -
  have t: "totalFeatures (generateReport [riskAnalysis]) = 40"
    by (simp add: generateReport_def Let_def riskAnalysis_def)
  have e: "errors (summary (generateReport [riskAnalysis])) = 23"
    by (simp add: generateReport_def Let_def riskAnalysis_def sampleUsage_def)
  have w: "warnings (summary (generateReport [riskAnalysis])) = 0"
    by (simp add: generateReport_def Let_def riskAnalysis_def sampleUsage_def)
  have m: "js_mul 40 3 = 120" by code_simp
  have r: "Math_round (js_mul (js_div (js_add (js_mul 23 3) (js_mul 0 1)) (js_mul 40 3)) 100) = 57"
    by code_simp
  have c: "calculateRiskScore (generateReport [riskAnalysis]) = 57"
    using r by (simp add: calculateRiskScore_def t e w m)
  have s: "specRiskScore (generateReport [riskAnalysis]) = 58"
    by (simp add: specRiskScore_def t e w round_def)
  show ?thesis using t e w c s by simp
qed

end
